theory Spec2Isabelle
  imports Complex_Main "HOL-Library.List_Lexorder" "HOL-Library.Char_ord"
begin

section \<open>The linear-model engine of \<open>salmon/model.py\<close>\<close>

text \<open>
  The development embeds \<open>LinearModel\<close> of \<open>src/salmon/model.py\<close>: the fit
  (\<open>_fit\<close>), \<open>predict\<close>, the sums of squares, \<open>r_squared\<close>, the two
  interval widths and the categorical branch of \<open>extract_columns\<close>.

  Conventions of the embedding.
  \<^item> numpy's 64-bit floats are idealised as the reals: every arithmetic step is exact.
    Where the source would produce \<open>nan\<close> or \<open>inf\<close> (a division by zero, the
    square root of a negative number) the model has HOL's value of the total function
    (\<open>x / 0 = 0\<close>); every theorem that depends on such a value excludes it by a
    hypothesis.
  \<^item> a pandas \<open>DataFrame\<close> is a record of its number of rows and its labelled columns,
    a \<open>Series\<close> a list of labelled values; rows are addressed by position (the default
    \<open>RangeIndex\<close>).
  \<^item> a raised exception is the \<open>Inl\<close> branch of a sum; a function that mutates
    \<open>self\<close> returns the new \<open>self\<close> beside its result, on the error path too.
  \<^item> the expression module (\<open>salmon/expression.py\<close>) and the numerical libraries are not
    part of the source. An expression is represented by the methods the model calls on it;
    \<open>scipy.stats\<close>' distribution functions are parameters of the functions that call
    them; \<open>numpy.linalg.solve\<close> is exact elimination, which fails on every singular
    matrix and on no other. The floating-point routine fails only where its elimination
    meets a pivot that is exactly zero: a matrix that is singular over the reals can pass
    it once its entries carry rounding errors. No theorem below takes the rank of a
    matrix for the failure of the solver; the failure itself is the hypothesis.
\<close>

subsection \<open>Exceptions\<close>

datatype error =
    LinAlgError
  | ValueError
  | TypeError
  | NameError
  | NoneError
  | KeyError
  | IndexError
  | VariableNotFound string

text \<open>
  \<open>NoneError\<close> stands for the exception Python raises when a method or an index is
  applied to a field that is still \<open>None\<close> (an \<open>AttributeError\<close> or a
  \<open>TypeError\<close>, depending on the operation); \<open>VariableNotFound\<close> is the
  \<open>Exception("Variable { ... } not found within data.")\<close> of \<open>extract_columns\<close>.
\<close>

subsection \<open>Vectors and \<open>numpy.linalg.solve\<close>\<close>

definition dot :: "real list \<Rightarrow> real list \<Rightarrow> real" where
  "dot xs ys = sum_list (map2 (*) xs ys)"

definition mat_vec :: "real list list \<Rightarrow> real list \<Rightarrow> real list" where
  "mat_vec A x = map (\<lambda>r. dot r x) A"

text \<open>An equation is a row of coefficients with its right-hand side.\<close>

type_synonym equation = "real list \<times> real"

text \<open>
  The first equation whose leading coefficient is not zero, and the other equations in
  their order; \<open>None\<close> when the leading column is zero throughout.
\<close>

fun pivot :: "equation list \<Rightarrow> (equation \<times> equation list) option" where
  "pivot [] = None"
| "pivot ((r, b) # es) =
     (case r of
        a # as \<Rightarrow>
          if a \<noteq> 0 then Some ((r, b), es)
          else (case pivot es of
                  None \<Rightarrow> None
                | Some (q, rest) \<Rightarrow> Some (q, (r, b) # rest))
      | [] \<Rightarrow>
          (case pivot es of
             None \<Rightarrow> None
           | Some (q, rest) \<Rightarrow> Some (q, (r, b) # rest)))"

text \<open>Subtracting from \<open>e\<close> the multiple of the pivot equation that clears its leading entry.\<close>

definition eliminate :: "equation \<Rightarrow> equation \<Rightarrow> equation" where
  "eliminate p e =
     (let k = hd (fst e) / hd (fst p)
      in (map2 (\<lambda>c a. c - k * a) (tl (fst e)) (tl (fst p)), snd e - k * snd p))"

text \<open>
  Elimination of one unknown after the other, \<open>n\<close> the number of unknowns; \<open>None\<close>
  is numpy's \<open>LinAlgError("Singular matrix")\<close>. The system without unknowns is solved by
  the empty vector.
\<close>

fun solve_n :: "nat \<Rightarrow> equation list \<Rightarrow> real list option" where
  "solve_n 0 es = Some []"
| "solve_n (Suc n) es =
     (case pivot es of
        None \<Rightarrow> None
      | Some (p, rest) \<Rightarrow>
          (case solve_n n (map (eliminate p) rest) of
             None \<Rightarrow> None
           | Some xs \<Rightarrow> Some ((snd p - dot (tl (fst p)) xs) / hd (fst p) # xs)))"

definition solve :: "real list list \<Rightarrow> real list \<Rightarrow> real list option" where
  "solve A b = solve_n (length A) (zip A b)"

text \<open>
  \<open>numpy.linalg.solve(A, B)\<close> with a matrix \<open>B\<close>, given and returned as the list of its
  columns. The matrix \<open>A\<close> is factorised once, whatever the number of columns of \<open>B\<close>:
  the factorisation is the elimination with a zero right-hand side.
\<close>

definition solve_mat :: "real list list \<Rightarrow> real list list \<Rightarrow> real list list option" where
  "solve_mat A B =
     (case solve A (replicate (length A) 0) of
        None \<Rightarrow> None
      | Some z \<Rightarrow> those (map (solve A) B))"

text \<open>What the solver is proved to compute: the one solution of the system.\<close>

definition sat :: "equation list \<Rightarrow> real list \<Rightarrow> bool" where
  "sat es x = list_all (\<lambda>e. dot (fst e) x = snd e) es"

definition square :: "nat \<Rightarrow> equation list \<Rightarrow> bool" where
  "square n es = (length es = n \<and> list_all (\<lambda>e. length (fst e) = n) es)"

definition unique_solution :: "nat \<Rightarrow> equation list \<Rightarrow> real list \<Rightarrow> bool" where
  "unique_solution n es x =
     (length x = n \<and> sat es x \<and> (\<forall>x'. length x' = n \<longrightarrow> sat es x' \<longrightarrow> x' = x))"

subsection \<open>Series and data frames\<close>

type_synonym series = "(string \<times> real) list"

record frame =
  nrows :: nat
  cols :: "(string \<times> real list) list"

definition labels :: "frame \<Rightarrow> string list" where
  "labels f = map fst (cols f)"

definition columns :: "frame \<Rightarrow> real list list" where
  "columns f = map snd (cols f)"

text \<open>
  \<open>obj[l] = v\<close> and \<open>obj.loc[l] = v\<close>: every entry labelled \<open>l\<close> is overwritten;
  when there is none, a new entry is appended.
\<close>

definition set_label :: "(string \<times> 'a) list \<Rightarrow> string \<Rightarrow> 'a \<Rightarrow> (string \<times> 'a) list" where
  "set_label kvs l v =
     (if l \<in> set (map fst kvs)
      then map (\<lambda>(k, w). if k = l then (k, v) else (k, w)) kvs
      else kvs @ [(l, v)])"

definition set_column :: "frame \<Rightarrow> string \<Rightarrow> real list \<Rightarrow> frame" where
  "set_column f l c = f\<lparr>cols := set_label (cols f) l c\<rparr>"

text \<open>\<open>X.mean()\<close>: the mean of every column.\<close>

definition mean :: "frame \<Rightarrow> series" where
  "mean f = map (\<lambda>(l, c). (l, sum_list c / real (nrows f))) (cols f)"

text \<open>\<open>X - X_means\<close> and \<open>X + X_means\<close>, the series taken from the same frame.\<close>

definition sub_series :: "frame \<Rightarrow> series \<Rightarrow> frame" where
  "sub_series f s = f\<lparr>cols := map2 (\<lambda>(l, c) (k, m). (l, map (\<lambda>v. v - m) c)) (cols f) s\<rparr>"

definition add_series :: "frame \<Rightarrow> series \<Rightarrow> frame" where
  "add_series f s = f\<lparr>cols := map2 (\<lambda>(l, c) (k, m). (l, map (\<lambda>v. v + m) c)) (cols f) s\<rparr>"

text \<open>The rows of a frame, and \<open>np.dot(X.T, X)\<close>, \<open>np.dot(X.T, y)\<close> on lists of columns.\<close>

definition rows :: "frame \<Rightarrow> real list list" where
  "rows f = map (\<lambda>i. map (\<lambda>c. c ! i) (columns f)) [0..<nrows f]"

definition gram :: "real list list \<Rightarrow> real list list" where
  "gram cs = map (\<lambda>c. map (dot c) cs) cs"

definition xty :: "real list list \<Rightarrow> real list \<Rightarrow> real list" where
  "xty cs y = map (\<lambda>c. dot c y) cs"

text \<open>\<open>s * np.identity(q)\<close> as the list of its columns, and \<open>np.diagonal\<close>.\<close>

definition scaled_identity :: "real \<Rightarrow> nat \<Rightarrow> real list list" where
  "scaled_identity s q = map (\<lambda>j. map (\<lambda>i. if i = j then s else 0) [0..<q]) [0..<q]"

definition diagonal :: "real list list \<Rightarrow> real list" where
  "diagonal V = map (\<lambda>i. V ! i ! i) [0..<length V]"

text \<open>
  A frame is well formed when every column has \<open>nrows\<close> entries, as every pandas frame
  has.
\<close>

definition wf_frame :: "frame \<Rightarrow> bool" where
  "wf_frame f = list_all (\<lambda>c. length c = nrows f) (columns f)"

subsection \<open>Expressions and the model object\<close>

text \<open>
  An interpreted expression, as far as the model uses it: its \<open>evaluate(data, fit)\<close>
  method and its display string \<open>str(e)\<close>. The type \<open>'d\<close> is the type of datasets.
  A given (not yet interpreted) expression is represented by \<open>copy().interpret(data)\<close>,
  a function from the dataset to the interpreted expression.
\<close>

record 'd expression =
  evaluate :: "'d \<Rightarrow> bool \<Rightarrow> error + frame"
  str :: string

text \<open>
  The fields of \<open>LinearModel\<close>. A field that \<open>__init__\<close> sets to \<open>None\<close> is an
  option. The registry \<open>categorical_levels\<close> maps a key to the address of a sequence
  object (see the section on categorical terms).
\<close>

record 'd linear_model =
  intercept :: bool
  given_ex :: "'d \<Rightarrow> 'd expression"
  given_re :: "'d \<Rightarrow> 'd expression"
  ex :: "'d expression option"
  re :: "'d expression option"
  bhat :: "series option"
  fitted :: "real list option"
  residuals :: "real list option"
  std_err_est :: "real option"
  std_err_vars :: "series option"
  var :: "frame option"
  t_vals :: "series option"
  p_vals :: "series option"
  training_data :: "'d option"
  training_x :: "frame option"
  training_x_means :: "series option"
  training_y :: "frame option"
  training_y_mean :: "series option"
  categorical_levels :: "string \<rightharpoonup> nat"

text \<open>The state \<open>__init__\<close> leaves, the constant already split off the formula.\<close>

definition LinearModel :: "('d \<Rightarrow> 'd expression) \<Rightarrow> ('d \<Rightarrow> 'd expression) \<Rightarrow> bool \<Rightarrow> 'd linear_model" where
  "LinearModel explanatory response icpt =
     \<lparr>intercept = icpt, given_ex = explanatory, given_re = response,
      ex = None, re = None, bhat = None, fitted = None, residuals = None,
      std_err_est = None, std_err_vars = None, var = None, t_vals = None, p_vals = None,
      training_data = None, training_x = None, training_x_means = None,
      training_y = None, training_y_mean = None, categorical_levels = Map.empty\<rparr>"

subsection \<open>\<open>_fit\<close>\<close>

text \<open>
  The value \<open>_fit\<close> returns: the coefficients, their standard errors, the t statistics
  and the p-values, side by side.
\<close>

type_synonym summary = "series \<times> series \<times> series \<times> series"

text \<open>
  Lines 107 to 135 of the source: what \<open>_fit\<close> does once the coefficients are in
  \<open>self.bhat\<close>, with the design matrix \<open>X\<close> and the response column \<open>y\<close> as they
  are at line 107. \<open>t_cdf\<close> is \<open>scipy.stats.t.cdf\<close>.
\<close>

definition fit_inference ::
  "(real \<Rightarrow> int \<Rightarrow> real) \<Rightarrow> 'd linear_model \<Rightarrow> frame \<Rightarrow> real list \<Rightarrow> series \<Rightarrow>
   (error + summary) \<times> 'd linear_model" where
  "fit_inference t_cdf self X y b =
     (let n = int (nrows X);
          p = int (length (cols X)) - (if intercept self then 1 else 0);
          fit = mat_vec (rows X) (map snd b);
          res = map2 (\<lambda>v f. v - f) y fit;
          sigma = sqrt (sum_list (map (\<lambda>r. r\<^sup>2) res) / real_of_int (n - p - 1));
          s1 = self\<lparr>bhat := Some b, fitted := Some fit, residuals := Some res,
                    std_err_est := Some sigma\<rparr>
      in case solve_mat (gram (columns X)) (scaled_identity (sigma\<^sup>2) (length (cols X))) of
           None \<Rightarrow> (Inl LinAlgError, s1)
         | Some V \<Rightarrow>
             (let se = zip (map fst b) (map sqrt (diagonal V));
                  t = map2 (\<lambda>(l, c) (k, s). (l, c / s)) b se;
                  pv = map (\<lambda>(l, v). (l, 2 * t_cdf (- \<bar>v\<bar>) (n - p - 1))) t
              in (Inr (b, se, t, pv),
                  s1\<lparr>std_err_vars := Some se,
                     var := Some \<lparr>nrows = length (cols X), cols = zip (labels X) V\<rparr>,
                     t_vals := Some t, p_vals := Some pv\<rparr>)))"

text \<open>
  \<open>_fit(self, data)\<close>, lines 67 to 106, handing over to \<open>fit_inference\<close>. The response
  must be a single column for \<open>pd.DataFrame(..., columns = ["Coefficients"])\<close> to
  accept the solution.
\<close>

definition LinearModel_fit ::
  "(real \<Rightarrow> int \<Rightarrow> real) \<Rightarrow> 'd linear_model \<Rightarrow> 'd \<Rightarrow> (error + summary) \<times> 'd linear_model" where
  "LinearModel_fit t_cdf self data =
     (let s1 = self\<lparr>categorical_levels := Map.empty, training_data := Some data,
                    ex := Some (given_ex self data), re := Some (given_re self data)\<rparr>
      in case evaluate (given_ex self data) data True of
           Inl e \<Rightarrow> (Inl e, s1)
         | Inr X0 \<Rightarrow>
             (let X_means = mean X0;
                  s2 = s1\<lparr>training_x := Some X0, training_x_means := Some X_means\<rparr>
              in case evaluate (given_re self data) data True of
                   Inl e \<Rightarrow> (Inl e, s2)
                 | Inr y0 \<Rightarrow>
                     (let y_mean = mean y0;
                          s3 = s2\<lparr>training_y := Some y0, training_y_mean := Some y_mean\<rparr>;
                          X1 = (if intercept self then sub_series X0 X_means else X0);
                          y1 = (if intercept self then sub_series y0 y_mean else y0);
                          X2 = (if intercept self
                                then set_column (add_series X1 X_means) ''Intercept''
                                       (replicate (nrows X1) 1)
                                else X1);
                          y2 = (if intercept self then add_series y1 y_mean else y1)
                      in case solve_mat (gram (columns X1))
                                (map (xty (columns X1)) (columns y1)) of
                           None \<Rightarrow> (Inl LinAlgError, s3)
                         | Some B \<Rightarrow>
                             (case (B, y_mean, columns y2) of
                                ([beta], [(ly, ym)], yc # _) \<Rightarrow>
                                  (let b0 = zip (labels X1) beta;
                                       b = (if intercept self
                                            then set_label b0 ''Intercept''
                                                   (ym - dot (map snd X_means) (map snd b0))
                                            else b0)
                                   in fit_inference t_cdf s3 X2 yc b)
                              | _ \<Rightarrow> (Inl ValueError, s3)))))"

subsection \<open>\<open>predict\<close>, the sums of squares and \<open>r_squared\<close>\<close>

text \<open>
  \<open>X.dot(b)\<close> of a frame and a labelled vector aligns the frame's columns with the
  vector's labels and raises \<open>ValueError\<close> when the two label sets differ; the model
  takes the labels to be distinct and raises \<open>ValueError\<close> otherwise too.
\<close>

definition column_of :: "frame \<Rightarrow> string \<Rightarrow> real list" where
  "column_of f l = (case map_of (cols f) l of None \<Rightarrow> [] | Some c \<Rightarrow> c)"

definition aligned :: "string list \<Rightarrow> string list \<Rightarrow> bool" where
  "aligned ks ls = (distinct ks \<and> distinct ls \<and> set ks = set ls)"

definition frame_dot :: "frame \<Rightarrow> series \<Rightarrow> error + real list" where
  "frame_dot X b =
     (if aligned (labels X) (map fst b)
      then Inr (map (\<lambda>i. sum_list (map (\<lambda>(l, v). column_of X l ! i * v) b)) [0..<nrows X])
      else Inl ValueError)"

text \<open>
  \<open>(X_new.dot(self.var) * X_new).sum(axis = 1)\<close>: for every row \<open>x\<close> of \<open>X_new\<close> the
  quadratic form of \<open>x\<close> in the covariance matrix, the columns of \<open>X_new\<close> aligned
  with the labels of \<open>var\<close>.
\<close>

definition quadratic_forms :: "frame \<Rightarrow> frame \<Rightarrow> error + real list" where
  "quadratic_forms X V =
     (if aligned (labels X) (labels V)
      then Inr (map (\<lambda>i. let x = map (\<lambda>l. column_of X l ! i) (labels V)
                          in dot (map (\<lambda>c. dot x c) (columns V)) x) [0..<nrows X])
      else Inl ValueError)"

text \<open>\<open>get_sse\<close>: the first column of the training response against the fitted values.\<close>

definition get_sse :: "'d linear_model \<Rightarrow> error + real" where
  "get_sse self =
     (case training_y self of
        None \<Rightarrow> Inl NoneError
      | Some y \<Rightarrow>
          (case columns y of
             [] \<Rightarrow> Inl IndexError
           | y0 # _ \<Rightarrow>
               (case fitted self of
                  None \<Rightarrow> Inl NoneError
                | Some f \<Rightarrow> Inr (sum_list (map (\<lambda>d. d\<^sup>2) (map2 (\<lambda>v w. v - w) y0 f))))))"

text \<open>
  \<open>get_sst\<close>: the left operand \<open>self.training_y.iloc[:,0]\<close> is evaluated first; the
  right operand is \<open>self.training_y[:,0].mean()\<close>, and \<open>DataFrame.__getitem__\<close> with
  the tuple \<open>(slice(None), 0)\<close> raises (pandas tries the tuple as a column key:
  \<open>TypeError: unhashable type\<close>). No path returns a number.
\<close>

definition get_sst :: "'d linear_model \<Rightarrow> error + real" where
  "get_sst self =
     (case training_y self of
        None \<Rightarrow> Inl NoneError
      | Some y \<Rightarrow>
          (case columns y of
             [] \<Rightarrow> Inl IndexError
           | y0 # _ \<Rightarrow> Inl TypeError))"

definition get_ssr :: "'d linear_model \<Rightarrow> error + real" where
  "get_ssr self =
     (case get_sst self of
        Inl e \<Rightarrow> Inl e
      | Inr sst \<Rightarrow>
          (case get_sse self of
             Inl e \<Rightarrow> Inl e
           | Inr sse \<Rightarrow> Inr (sst - sse)))"

text \<open>
  The two interval widths. \<open>t_ppf\<close> and \<open>f_ppf\<close> are \<open>scipy.stats.t.ppf\<close> and
  \<open>scipy.stats.f.ppf\<close> (the quantile functions of Student's t and of the F distribution).
\<close>

definition prediction_interval_width ::
  "(real \<Rightarrow> int \<Rightarrow> real) \<Rightarrow> 'd linear_model \<Rightarrow> frame \<Rightarrow> real \<Rightarrow> error + real list" where
  "prediction_interval_width t_ppf self X_new alpha =
     (case training_x self of
        None \<Rightarrow> Inl NoneError
      | Some tx \<Rightarrow>
          (let n = int (nrows tx); p = int (length (cols X_new))
           in case get_sse self of
                Inl e \<Rightarrow> Inl e
              | Inr sse \<Rightarrow>
                  (case var self of
                     None \<Rightarrow> Inl NoneError
                   | Some V \<Rightarrow>
                       (case quadratic_forms X_new V of
                          Inl e \<Rightarrow> Inl e
                        | Inr s_yhat_squared \<Rightarrow>
                            (let mse = sse / real_of_int (n - p);
                                 t_crit = t_ppf (1 - alpha / 2) (n - p)
                             in Inr (map (\<lambda>s. t_crit * sqrt (mse + s)) s_yhat_squared))))))"

definition confidence_interval_width ::
  "(real \<Rightarrow> int \<Rightarrow> int \<Rightarrow> real) \<Rightarrow> 'd linear_model \<Rightarrow> frame \<Rightarrow> real \<Rightarrow> error + real list" where
  "confidence_interval_width f_ppf self X_new alpha =
     (case training_x self of
        None \<Rightarrow> Inl NoneError
      | Some tx \<Rightarrow>
          (let n = int (nrows tx); p = int (length (cols X_new))
           in case var self of
                None \<Rightarrow> Inl NoneError
              | Some V \<Rightarrow>
                  (case quadratic_forms X_new V of
                     Inl e \<Rightarrow> Inl e
                   | Inr s_yhat_squared \<Rightarrow>
                       (let W_crit_squared = real_of_int p * f_ppf (1 - alpha / 2) p (n - p)
                        in Inr (map (\<lambda>s. sqrt W_crit_squared * sqrt s) s_yhat_squared)))))"

text \<open>
  \<open>predict\<close>. After the widths the source computes \<open>lower = y_vals - widths\<close>; no
  \<open>y_vals\<close> is bound in \<open>predict\<close> or at module level, so the line raises
  \<open>NameError\<close>. The result is the frame of one column \<open>"Predicted " + str(self.re)\<close>.
  The argument \<open>for_plot\<close> is never read and is left out.
\<close>

definition predict ::
  "(real \<Rightarrow> int \<Rightarrow> real) \<Rightarrow> (real \<Rightarrow> int \<Rightarrow> int \<Rightarrow> real) \<Rightarrow> 'd linear_model \<Rightarrow> 'd \<Rightarrow>
   bool \<Rightarrow> bool \<Rightarrow> real \<Rightarrow> error + frame" where
  "predict t_ppf f_ppf self data confidence_interval prediction_interval alpha =
     (case ex self of
        None \<Rightarrow> Inl NoneError
      | Some e \<Rightarrow>
          (case evaluate e data False of
             Inl err \<Rightarrow> Inl err
           | Inr X0 \<Rightarrow>
               (let X = (if intercept self
                         then set_column X0 ''Intercept'' (replicate (nrows X0) 1) else X0)
                in case bhat self of
                     None \<Rightarrow> Inl NoneError
                   | Some b \<Rightarrow>
                       (case frame_dot X b of
                          Inl err \<Rightarrow> Inl err
                        | Inr yhat \<Rightarrow>
                            (let label = ''Predicted '' @ (case re self of None \<Rightarrow> ''None'' | Some r \<Rightarrow> str r);
                                 predictions = \<lparr>nrows = nrows X, cols = [(label, yhat)]\<rparr>
                             in if confidence_interval \<or> prediction_interval
                                then (case (if confidence_interval
                                            then confidence_interval_width f_ppf self X alpha
                                            else prediction_interval_width t_ppf self X alpha) of
                                        Inl err \<Rightarrow> Inl err
                                      | Inr widths \<Rightarrow> Inl NameError)
                                else Inr predictions)))))"

text \<open>
  \<open>r_squared(X, y, adjusted)\<close>; \<open>None\<close> for \<open>X\<close> or \<open>y\<close> is the default argument.
\<close>

definition r_squared ::
  "(real \<Rightarrow> int \<Rightarrow> real) \<Rightarrow> (real \<Rightarrow> int \<Rightarrow> int \<Rightarrow> real) \<Rightarrow> 'd linear_model \<Rightarrow>
   'd option \<Rightarrow> frame option \<Rightarrow> bool \<Rightarrow> error + real" where
  "r_squared t_ppf f_ppf self X y adjusted =
     (case (case X of None \<Rightarrow> training_data self | Some d \<Rightarrow> Some d) of
        None \<Rightarrow> Inl NoneError
      | Some d \<Rightarrow>
          (case predict t_ppf f_ppf self d False False (5 / 100) of
             Inl e \<Rightarrow> Inl e
           | Inr pred \<Rightarrow>
               (case (case y of None \<Rightarrow> training_y self | Some f \<Rightarrow> Some f) of
                  None \<Rightarrow> Inl NoneError
                | Some yf \<Rightarrow>
                    (case (columns yf, columns pred) of
                       (y0 # _, p0 # _) \<Rightarrow>
                         (let sse = sum_list (map (\<lambda>d. d\<^sup>2) (map2 (\<lambda>v w. v - w) y0 p0));
                              m = sum_list y0 / real (length y0);
                              ssto = sum_list (map (\<lambda>v. (v - m)\<^sup>2) y0)
                          in if adjusted then Inr (1 - sse / ssto)
                             else (case training_x self of
                                     None \<Rightarrow> Inl NoneError
                                   | Some tx \<Rightarrow>
                                       (let numerator =
                                              sse / real_of_int (int (nrows yf) - int (length (cols tx)) - 2);
                                            denominator = ssto / real_of_int (int (nrows yf) - 1)
                                        in Inr (1 - numerator / denominator))))
                     | _ \<Rightarrow> Inl IndexError))))"

subsection \<open>Categorical terms: the \<open>Categorical\<close> branch of \<open>extract_columns\<close>\<close>

text \<open>
  The level list of a term and the entries of the registry are Python sequence objects
  that the source shares and mutates in place (\<open>levels = expr.levels\<close>,
  \<open>levels.remove(level)\<close>, \<open>levels.append("~other~")\<close>,
  \<open>self.categorical_levels[str(expr)] = levels\<close>). The model keeps them in a store:
  an address is an index into the list of all sequence objects, a field that refers to a
  sequence holds its address. Levels are strings (\<open>str(level)\<close> is the level itself),
  compared as Python compares strings.
\<close>

type_synonym heap = "string list list"

definition alloc :: "heap \<Rightarrow> string list \<Rightarrow> nat \<times> heap" where
  "alloc h v = (length h, h @ [v])"

text \<open>
  A \<open>Categorical\<close> term: \<open>expr.name\<close>, \<open>expr.levels\<close> (\<open>None\<close> or the address of a
  list) and \<open>expr.method\<close> (the field \<open>method_name\<close>). Its display string \<open>str(expr)\<close> is a method of the
  expression module; the encoder takes it as the parameter \<open>str_of\<close>.
\<close>

record categorical =
  name :: string
  levels :: "nat option"
  method_name :: string

text \<open>A dataset of categorical columns: the labelled columns of a \<open>DataFrame\<close>.\<close>

type_synonym table = "(string \<times> string list) list"

text \<open>\<open>Series.unique()\<close>: the values in the order of their first appearance.\<close>

primrec unique :: "string list \<Rightarrow> string list" where
  "unique [] = []"
| "unique (x # xs) = x # filter (\<lambda>y. y \<noteq> x) (unique xs)"

text \<open>
  The loop \<open>for level in levels[:]: if level not in data_levels: levels.remove(level)\<close>:
  it runs over a copy, and \<open>remove\<close> deletes the first occurrence in the list itself.
\<close>

fun remove_absent :: "string list \<Rightarrow> string list \<Rightarrow> string list \<Rightarrow> string list" where
  "remove_absent [] data_levels lv = lv"
| "remove_absent (level # rest) data_levels lv =
     remove_absent rest data_levels
       (if level \<notin> set data_levels then remove1 level lv else lv)"

text \<open>
  The loop \<open>for level in data_levels: if level not in levels: levels.append("~other~");
  other_flag = True; break\<close>.
\<close>

fun add_other :: "string list \<Rightarrow> string list \<Rightarrow> string list \<times> bool" where
  "add_other [] lv = (lv, False)"
| "add_other (level # rest) lv =
     (if level \<notin> set lv then (lv @ [''~other~''], True) else add_other rest lv)"

text \<open>
  A Python \<open>dict\<close> built by a comprehension, as the list of its items: a key met again
  keeps its place and takes the new value.
\<close>

fun dict_of :: "(string \<times> 'a) list \<Rightarrow> (string \<times> 'a) list \<Rightarrow> (string \<times> 'a) list" where
  "dict_of d [] = d"
| "dict_of d ((k, v) # kvs) = dict_of (set_label d k v) kvs"

text \<open>
  \<open>pd.DataFrame(dict)\<close> of indicator columns over a data column of \<open>n\<close> rows: the
  empty dictionary gives the frame with no rows and no columns.
\<close>

definition frame_of_dict :: "nat \<Rightarrow> (string \<times> real list) list \<Rightarrow> frame" where
  "frame_of_dict n d = (if d = [] then \<lparr>nrows = 0, cols = []\<rparr> else \<lparr>nrows = n, cols = d\<rparr>)"

text \<open>\<open>(data[expr.name] == level) * 1.0\<close>.\<close>

definition indicator :: "string list \<Rightarrow> string \<Rightarrow> real list" where
  "indicator column level = map (\<lambda>v. if v = level then 1 else 0) column"

text \<open>\<open>columns.sum(axis = 1)\<close> and \<open>(s == 0.0) * 1.0\<close>.\<close>

definition row_sums :: "frame \<Rightarrow> real list" where
  "row_sums f = map sum_list (rows f)"

definition is_zero :: "real list \<Rightarrow> real list" where
  "is_zero s = map (\<lambda>v. if v = 0 then 1 else 0) s"

text \<open>
  \<open>columns[[l1, l2, ...]]\<close>: the columns under the listed labels, in the listed order;
  \<open>KeyError\<close> when a label is missing. \<open>columns.drop(l, axis = 1)\<close>: every column
  labelled \<open>l\<close> goes; \<open>KeyError\<close> when there is none.
\<close>

definition select :: "frame \<Rightarrow> string list \<Rightarrow> error + frame" where
  "select f ls =
     (if set ls \<subseteq> set (labels f)
      then Inr (f\<lparr>cols := map (\<lambda>l. (l, column_of f l)) ls\<rparr>)
      else Inl KeyError)"

definition drop_column :: "frame \<Rightarrow> string \<Rightarrow> error + frame" where
  "drop_column f l =
     (if l \<in> set (labels f)
      then Inr (f\<lparr>cols := filter (\<lambda>(k, c). k \<noteq> l) (cols f)\<rparr>)
      else Inl KeyError)"

text \<open>
  Lines 549 to 588. The result is the value returned (\<open>None\<close> when the method is not
  \<open>"one-hot"\<close>: the function falls off its end), the model with its registry, and the
  store. The inner lookup of the registry at line 558 repeats the test of line 554 and is
  never taken.
\<close>

definition resolve_levels ::
  "'d linear_model \<Rightarrow> heap \<Rightarrow> categorical \<Rightarrow> string list \<Rightarrow> bool \<times> nat \<times> heap" where
  "resolve_levels self h expr column =
     (case categorical_levels self (name expr) of
        Some a \<Rightarrow> (False, a, h)
      | None \<Rightarrow>
          (case levels expr of
             None \<Rightarrow> (let (a, h') = alloc h (sort (unique column)) in (False, a, h'))
           | Some a \<Rightarrow>
               (let data_levels = unique column;
                    (lv, other_flag) =
                      add_other data_levels (remove_absent (h ! a) data_levels (h ! a))
                in (other_flag, a, h[a := lv]))))"

definition extract_columns_Categorical ::
  "(categorical \<Rightarrow> string) \<Rightarrow> 'd linear_model \<Rightarrow> heap \<Rightarrow> categorical \<Rightarrow> table \<Rightarrow>
   bool \<Rightarrow> bool \<Rightarrow> (error + frame option) \<times> 'd linear_model \<times> heap" where
  "extract_columns_Categorical str_of self h expr data drop_dummy update_levels =
     (case map_of data (name expr) of
        None \<Rightarrow> (Inl (VariableNotFound (name expr)), self, h)
      | Some column \<Rightarrow>
          (let (other_flag, a, h1) = resolve_levels self h expr column;
               self1 = (if update_levels
                        then self\<lparr>categorical_levels := (categorical_levels self)(str_of expr \<mapsto> a)\<rparr>
                        else self);
               lv = h1 ! a;
               last_index = (if other_flag then length lv - 1 else length lv)
           in if method_name expr = ''one-hot''
              then
                (let columns0 =
                       frame_of_dict (length column)
                         (dict_of [] (map (\<lambda>level. (name expr @ ''::'' @ level, indicator column level))
                                       (take last_index lv)));
                     columns1 =
                       (if other_flag
                        then set_column columns0 (name expr @ ''::~other~'') (is_zero (row_sums columns0))
                        else columns0)
                 in case select columns1 (map (\<lambda>level. name expr @ ''::'' @ level) lv) of
                      Inl e \<Rightarrow> (Inl e, self1, h1)
                    | Inr columns2 \<Rightarrow>
                        if drop_dummy
                        then (case lv of
                                [] \<Rightarrow> (Inl IndexError, self1, h1)
                              | l0 # _ \<Rightarrow>
                                  (case drop_column columns2 (name expr @ ''::'' @ l0) of
                                     Inl e \<Rightarrow> (Inl e, self1, h1)
                                   | Inr columns3 \<Rightarrow> (Inr (Some columns3), self1, h1)))
                        else (Inr (Some columns2), self1, h1))
              else (Inr None, self1, h1)))"

subsection \<open>The example of the specification\<close>

text \<open>
  A dataset of numeric columns, and the expression that evaluates to one of its columns
  (what a quantitative variable of the expression module does). The example is
  \<open>y ~ x\<close> with an intercept on \<open>x = [1,2,3,4,5]\<close>, \<open>y = [2,4,5,4,5]\<close>.
\<close>

type_synonym dataset = "(string \<times> real list) list"

definition column_expr :: "string \<Rightarrow> dataset \<Rightarrow> dataset expression" where
  "column_expr v interpreted_on =
     \<lparr>evaluate = (\<lambda>d fit. case map_of d v of
                              None \<Rightarrow> Inl (VariableNotFound v)
                            | Some c \<Rightarrow> Inr \<lparr>nrows = length c, cols = [(v, c)]\<rparr>),
      str = v\<rparr>"

definition example_data :: dataset where
  "example_data = [(''x'', [1, 2, 3, 4, 5]), (''y'', [2, 4, 5, 4, 5])]"

definition example_model :: "dataset linear_model" where
  "example_model = LinearModel (column_expr ''x'') (column_expr ''y'') True"

text \<open>The model after \<open>fit(example_data)\<close>.\<close>

definition example_fitted :: "(real \<Rightarrow> int \<Rightarrow> real) \<Rightarrow> dataset linear_model" where
  "example_fitted t_cdf = snd (LinearModel_fit t_cdf example_model example_data)"

text \<open>
  A second dataset, of four rows, so that the fit with an intercept leaves two degrees of
  freedom; and a dataset whose explanatory column is constant, so that the centred
  matrix \<open>X\<^sup>TX\<close> is zero.
\<close>

definition small_data :: dataset where
  "small_data = [(''x'', [1, 2, 3, 4]), (''y'', [1, 3, 2, 4])]"

definition degenerate_data :: dataset where
  "degenerate_data = [(''x'', [1, 1, 1, 1]), (''y'', [1, 3, 2, 4])]"

text \<open>
  A dataset whose explanatory column is itself labelled \<open>Intercept\<close>, and the model
  \<open>y ~ Intercept\<close> with an intercept on it. It has three rows: the fit then counts no
  column beside the intercept, which again leaves two degrees of freedom.
\<close>

definition intercept_named_data :: dataset where
  "intercept_named_data = [(''Intercept'', [1, 2, 3]), (''y'', [1, 3, 2])]"

definition intercept_named_model :: "dataset linear_model" where
  "intercept_named_model = LinearModel (column_expr ''Intercept'') (column_expr ''y'') True"

text \<open>
  The distribution functions in closed form at the degrees of freedom of
  \<open>small_data\<close>: Student's t with two degrees of freedom has the distribution function
  \<open>1/2 + x / (2 sqrt (x\<^sup>2 + 2))\<close> and the quantile function
  \<open>(2q - 1) / sqrt (2q (1 - q))\<close>; the F distribution with \<open>(2, 2)\<close> degrees of
  freedom has the distribution function \<open>x / (1 + x)\<close> and the quantile function
  \<open>q / (1 - q)\<close>. They stand for \<open>scipy.stats\<close>' functions where the degrees of
  freedom are these, and ignore the argument that carries them.
\<close>

definition t_cdf_2df :: "real \<Rightarrow> int \<Rightarrow> real" where
  "t_cdf_2df x df = 1 / 2 + x / (2 * sqrt (x\<^sup>2 + 2))"

definition t_ppf_2df :: "real \<Rightarrow> int \<Rightarrow> real" where
  "t_ppf_2df q df = (2 * q - 1) / sqrt (2 * q * (1 - q))"

definition f_cdf_2_2df :: "real \<Rightarrow> int \<Rightarrow> int \<Rightarrow> real" where
  "f_cdf_2_2df x dfn dfd = x / (1 + x)"

definition f_ppf_2_2df :: "real \<Rightarrow> int \<Rightarrow> int \<Rightarrow> real" where
  "f_ppf_2_2df q dfn dfd = q / (1 - q)"

text \<open>
  The matrix \<open>predict\<close> builds for the new observation \<open>x = 1\<close>: the column
  \<open>x\<close> and the column of ones.
\<close>

definition new_point :: frame where
  "new_point = \<lparr>nrows = 1, cols = [(''x'', [1]), (''Intercept'', [1])]\<rparr>"

text \<open>The model after \<open>fit(small_data)\<close>.\<close>

definition small_fitted :: "dataset linear_model" where
  "small_fitted = snd (LinearModel_fit t_cdf_2df example_model small_data)"

text \<open>
  A categorical column with the observed levels \<open>A\<close>, \<open>B\<close>, \<open>C\<close>, a one-hot
  term on it with a given level list (an address, or \<open>None\<close>), and the store holding
  the explicit level list \<open>[A, B, X]\<close> at address \<open>0\<close>.
\<close>

definition abc_data :: table where
  "abc_data = [(''c'', [''B'', ''A'', ''C'', ''A''])]"

definition term_c :: "nat option \<Rightarrow> categorical" where
  "term_c lv = \<lparr>name = ''c'', levels = lv, method_name = ''one-hot''\<rparr>"

definition abx_heap :: heap where
  "abx_heap = [[''A'', ''B'', ''X'']]"

text \<open>
  Training data with the levels \<open>A\<close> and \<open>B\<close> only, and the store holding the
  explicit level list \<open>[A, B]\<close> at address \<open>0\<close>.
\<close>

definition ab_data :: table where
  "ab_data = [(''c'', [''A'', ''B'', ''A''])]"

definition ab_heap :: heap where
  "ab_heap = [[''A'', ''B'']]"

subsection \<open>Notions of the specification\<close>

text \<open>A column with its mean subtracted, \<open>n\<close> the number of rows.\<close>

definition center :: "nat \<Rightarrow> real list \<Rightarrow> real list" where
  "center n c = map (\<lambda>v. v - sum_list c / real n) c"

text \<open>
  Ordinary least squares with an explicit all-ones \<open>Intercept\<close> column appended to the
  uncentred design matrix: the normal equations of the widened matrix, solved for all
  coefficients at once.
\<close>

definition with_intercept_column :: "frame \<Rightarrow> frame" where
  "with_intercept_column X = X\<lparr>cols := cols X @ [(''Intercept'', replicate (nrows X) 1)]\<rparr>"

definition explicit_intercept_ols :: "frame \<Rightarrow> real list \<Rightarrow> real list option" where
  "explicit_intercept_ols X y =
     solve (gram (columns (with_intercept_column X)))
           (xty (columns (with_intercept_column X)) y)"

section \<open>The solver computes the one solution of a square system\<close>

lemma dot_Nil [simp]: "dot [] ys = 0" "dot xs [] = 0"
  by (simp_all add: dot_def)

lemma dot_Cons [simp]: "dot (x # xs) (y # ys) = x * y + dot xs ys"
  by (simp add: dot_def)

lemma dot_axpy:
  "length cs = length as \<Longrightarrow> length as = length xs \<Longrightarrow>
   dot (map2 (\<lambda>c a. c - k * a) cs as) xs = dot cs xs - k * dot as xs"
proof (induction cs as xs rule: list_induct3)
  case Nil
  then show ?case by simp
next
  case (Cons c cs a as x xs)
  then show ?case by (simp add: algebra_simps)
qed

lemma pivot_None:
  "pivot es = None \<Longrightarrow> e \<in> set es \<Longrightarrow> fst e = [] \<or> hd (fst e) = 0"
  by (induction es rule: pivot.induct) (auto split: list.splits if_splits option.splits)

lemma pivot_Some:
  "pivot es = Some (p, rest) \<Longrightarrow>
   fst p \<noteq> [] \<and> hd (fst p) \<noteq> 0 \<and> set es = insert p (set rest) \<and> length es = Suc (length rest)"
  by (induction es arbitrary: p rest rule: pivot.induct)
     (auto split: list.splits if_splits option.splits)

lemma sat_set: "sat es x = (\<forall>e \<in> set es. dot (fst e) x = snd e)"
  by (simp add: sat_def list_all_iff)

lemma square_set: "square n es = (length es = n \<and> (\<forall>e \<in> set es. length (fst e) = n))"
  by (simp add: square_def list_all_iff)

lemma eliminate_length:
  "length (fst p) = Suc n \<Longrightarrow> length (fst e) = Suc n \<Longrightarrow> length (fst (eliminate p e)) = n"
  by (simp add: eliminate_def Let_def)

lemma square_eliminate:
  assumes "pivot es = Some (p, rest)" and "square (Suc n) es"
  shows "square n (map (eliminate p) rest)"
proof -
  from pivot_Some [OF assms(1)] have s: "set es = insert p (set rest)" and l: "length es = Suc (length rest)"
    by simp_all
  from assms(2) s have "length (fst p) = Suc n" and "\<forall>e \<in> set rest. length (fst e) = Suc n"
    by (auto simp: square_set)
  with l assms(2) show ?thesis
    by (auto simp: square_set eliminate_length)
qed

lemma eliminate_sat:
  assumes p: "fst p = a # as" "a \<noteq> 0" "length as = length xs"
    and e: "length (fst e) = Suc (length xs)"
    and x0: "x0 = (snd p - dot as xs) / a"
  shows "dot (fst e) (x0 # xs) = snd e \<longleftrightarrow> dot (fst (eliminate p e)) xs = snd (eliminate p e)"
proof -
  from e obtain c cs where ce: "fst e = c # cs" and lc: "length cs = length xs"
    by (cases "fst e") auto
  have A: "dot (fst (eliminate p e)) xs = dot cs xs - (c / a) * dot as xs"
    using p lc dot_axpy [of cs as xs "c / a"] by (simp add: eliminate_def ce)
  have B: "snd (eliminate p e) = snd e - (c / a) * snd p"
    using p by (simp add: eliminate_def ce)
  have C: "c * x0 = (c / a) * snd p - (c / a) * dot as xs"
    unfolding x0 by (simp add: algebra_simps diff_divide_distrib)
  have D: "dot (fst e) (x0 # xs) = c * x0 + dot cs xs"
    by (simp add: ce)
  show ?thesis
    unfolding A B C D by argo
qed

lemma sat_step:
  assumes pv: "pivot es = Some (p, rest)" and sq: "square (Suc n) es" and lx: "length xs = n"
  shows "sat es (x0 # xs) \<longleftrightarrow>
         x0 = (snd p - dot (tl (fst p)) xs) / hd (fst p) \<and> sat (map (eliminate p) rest) xs"
proof -
  from pivot_Some [OF pv] have ne: "fst p \<noteq> []" and nz: "hd (fst p) \<noteq> 0"
    and s: "set es = insert p (set rest)" by simp_all
  from ne obtain a as where pa: "fst p = a # as" by (cases "fst p") auto
  from sq s have lp: "length (fst p) = Suc n" and lr: "\<forall>e \<in> set rest. length (fst e) = Suc n"
    by (auto simp: square_set)
  from lp pa lx have las: "length as = length xs" by simp
  from nz pa have a0: "a \<noteq> 0" by simp
  have piv: "dot (fst p) (x0 # xs) = snd p \<longleftrightarrow> x0 = (snd p - dot as xs) / a"
    using a0 by (auto simp: pa field_simps)
  show ?thesis
  proof
    assume h: "sat es (x0 # xs)"
    then have x0: "x0 = (snd p - dot as xs) / a"
      using piv s by (auto simp: sat_set)
    have "\<forall>e \<in> set rest. dot (fst (eliminate p e)) xs = snd (eliminate p e)"
    proof
      fix e assume er: "e \<in> set rest"
      with h s have "dot (fst e) (x0 # xs) = snd e" by (auto simp: sat_set)
      with eliminate_sat [OF pa a0 las _ x0, of e] lr er lx show
        "dot (fst (eliminate p e)) xs = snd (eliminate p e)" by simp
    qed
    with x0 show "x0 = (snd p - dot (tl (fst p)) xs) / hd (fst p) \<and> sat (map (eliminate p) rest) xs"
      by (simp add: pa sat_set)
  next
    assume h: "x0 = (snd p - dot (tl (fst p)) xs) / hd (fst p) \<and> sat (map (eliminate p) rest) xs"
    then have x0: "x0 = (snd p - dot as xs) / a" by (simp add: pa)
    have "\<forall>e \<in> set rest. dot (fst e) (x0 # xs) = snd e"
    proof
      fix e assume er: "e \<in> set rest"
      with h have "dot (fst (eliminate p e)) xs = snd (eliminate p e)" by (auto simp: sat_set)
      with eliminate_sat [OF pa a0 las _ x0, of e] lr er lx show
        "dot (fst e) (x0 # xs) = snd e" by simp
    qed
    moreover have "dot (fst p) (x0 # xs) = snd p" using piv x0 by simp
    ultimately show "sat es (x0 # xs)" using s by (auto simp: sat_set)
  qed
qed

lemma no_pivot_free:
  assumes pv: "pivot es = None" and sq: "square (Suc n) es"
  shows "sat es (x0 # xs) \<longleftrightarrow> sat es (x1 # xs)"
proof -
  have "dot (fst e) (x0 # xs) = dot (fst e) (x1 # xs)" if "e \<in> set es" for e
  proof -
    from sq that have "length (fst e) = Suc n" by (auto simp: square_set)
    then obtain c cs where ce: "fst e = c # cs" by (cases "fst e") auto
    with pivot_None [OF pv that] have "c = 0" by simp
    with ce show ?thesis by simp
  qed
  then show ?thesis by (simp add: sat_set)
qed

lemma unique_solutionI:
  "length x = n \<Longrightarrow> sat es x \<Longrightarrow> (\<And>x'. length x' = n \<Longrightarrow> sat es x' \<Longrightarrow> x' = x) \<Longrightarrow>
   unique_solution n es x"
  unfolding unique_solution_def by blast

lemma unique_solution_length: "unique_solution n es x \<Longrightarrow> length x = n"
  unfolding unique_solution_def by blast

lemma unique_solution_sat: "unique_solution n es x \<Longrightarrow> sat es x"
  unfolding unique_solution_def by blast

lemma unique_solution_eq:
  "unique_solution n es x \<Longrightarrow> length x' = n \<Longrightarrow> sat es x' \<Longrightarrow> x' = x"
  unfolding unique_solution_def by blast

lemma solve_n_unique:
  "square n es \<Longrightarrow> solve_n n es = Some x \<longleftrightarrow> unique_solution n es x"
proof (induction n arbitrary: es x)
  case 0
  then have "es = []" by (simp add: square_set)
  then show ?case by (auto simp: unique_solution_def sat_def)
next
  case (Suc n)
  show ?case
  proof (cases "pivot es")
    case None
    have "\<not> unique_solution (Suc n) es x"
    proof
      assume u: "unique_solution (Suc n) es x"
      from unique_solution_length [OF u] obtain x0 xs where x: "x = x0 # xs" by (cases x) auto
      from unique_solution_sat [OF u] x have "sat es (x0 # xs)" by simp
      with no_pivot_free [OF None Suc.prems, of x0 xs "x0 + 1"]
      have "sat es ((x0 + 1) # xs)" by simp
      moreover from unique_solution_length [OF u] x have "length ((x0 + 1) # xs) = Suc n" by simp
      ultimately have "(x0 + 1) # xs = x" by (rule unique_solution_eq [OF u, rotated])
      with x show False by simp
    qed
    with None show ?thesis by simp
  next
    case (Some pr)
    obtain p rest where pr: "pr = (p, rest)" by (cases pr)
    with Some have pv: "pivot es = Some (p, rest)" by simp
    let ?es' = "map (eliminate p) rest"
    let ?x0 = "\<lambda>xs. (snd p - dot (tl (fst p)) xs) / hd (fst p)"
    have sq': "square n ?es'" by (rule square_eliminate [OF pv Suc.prems])
    note IH = Suc.IH [OF sq']
    note step = sat_step [OF pv Suc.prems]
    have unfold: "solve_n (Suc n) es =
        (case solve_n n ?es' of None \<Rightarrow> None | Some xs \<Rightarrow> Some (?x0 xs # xs))"
      using pv by simp
    show ?thesis
    proof
      assume "solve_n (Suc n) es = Some x"
      with unfold obtain xs where xs: "solve_n n ?es' = Some xs" and x: "x = ?x0 xs # xs"
        by (cases "solve_n n ?es'") auto
      from xs IH have u: "unique_solution n ?es' xs" by blast
      note lx = unique_solution_length [OF u]
      show "unique_solution (Suc n) es x"
      proof (rule unique_solutionI)
        show "length x = Suc n" using lx x by simp
        show "sat es x" unfolding x using step [OF lx, of "?x0 xs"] unique_solution_sat [OF u]
          by blast
      next
        fix x' assume l': "length x' = Suc n" and s': "sat es x'"
        from l' obtain y0 ys where x': "x' = y0 # ys" and ly: "length ys = n" by (cases x') auto
        from s' have "sat es (y0 # ys)" unfolding x' .
        with step [OF ly, of y0] have y0: "y0 = ?x0 ys" and sy: "sat ?es' ys" by blast+
        from unique_solution_eq [OF u ly sy] have "ys = xs" .
        then show "x' = x" unfolding x x' y0 by simp
      qed
    next
      assume u: "unique_solution (Suc n) es x"
      from unique_solution_length [OF u] obtain x0 xs where x: "x = x0 # xs" and lx: "length xs = n"
        by (cases x) auto
      from unique_solution_sat [OF u] have "sat es (x0 # xs)" unfolding x .
      with step [OF lx, of x0] have x0: "x0 = ?x0 xs" and s: "sat ?es' xs" by blast+
      have "unique_solution n ?es' xs"
      proof (rule unique_solutionI [OF lx s])
        fix ys assume ly: "length ys = n" and sy: "sat ?es' ys"
        from step [OF ly, of "?x0 ys"] sy have "sat es (?x0 ys # ys)" by blast
        moreover have "length (?x0 ys # ys) = Suc n" using ly by simp
        ultimately have "?x0 ys # ys = x" by (rule unique_solution_eq [OF u, rotated])
        then show "ys = xs" unfolding x by simp
      qed
      with IH have "solve_n n ?es' = Some xs" by blast
      with unfold have "solve_n (Suc n) es = Some (?x0 xs # xs)" by simp
      then show "solve_n (Suc n) es = Some x" unfolding x x0 .
    qed
  qed
qed

lemma pivot_fst:
  "map fst es = map fst es' \<Longrightarrow>
   (case pivot es of None \<Rightarrow> pivot es' = None
    | Some (p, rest) \<Rightarrow> (\<exists>p' rest'. pivot es' = Some (p', rest') \<and> fst p' = fst p \<and> map fst rest' = map fst rest))"
proof (induction es arbitrary: es' rule: pivot.induct)
  case 1
  then show ?case by simp
next
  case (2 r b es)
  then obtain b' es2 where es': "es' = (r, b') # es2" and m: "map fst es = map fst es2"
    by (cases es') auto
  show ?case
  proof (cases "r \<noteq> [] \<and> hd r \<noteq> 0")
    case True
    then show ?thesis using es' m by (cases r) auto
  next
    case False
    then have ih: "(case pivot es of None \<Rightarrow> pivot es2 = None
      | Some (p, rest) \<Rightarrow> (\<exists>p' rest'. pivot es2 = Some (p', rest') \<and> fst p' = fst p \<and> map fst rest' = map fst rest))"
      using "2.IH" m by (cases r) auto
    from False show ?thesis using es' ih
      by (cases r) (auto split: option.splits)
  qed
qed

lemma eliminate_fst_cong:
  assumes "fst p = fst p'" and "map fst rest = map fst rest'"
  shows "map fst (map (eliminate p) rest) = map fst (map (eliminate p') rest')"
proof -
  from assms(2) have "length rest = length rest'" by (rule map_eq_imp_length_eq)
  then show ?thesis using assms
    by (induction rest rest' rule: list_induct2) (simp_all add: eliminate_def)
qed

lemma solve_n_rhs_indep:
  "map fst es = map fst es' \<Longrightarrow> solve_n n es = None \<longleftrightarrow> solve_n n es' = None"
proof (induction n arbitrary: es es')
  case 0
  then show ?case by simp
next
  case (Suc n)
  show ?case
  proof (cases "pivot es")
    case None
    with pivot_fst [OF Suc.prems] show ?thesis by simp
  next
    case (Some pr)
    obtain p rest where pr: "pr = (p, rest)" by (cases pr)
    with Some pivot_fst [OF Suc.prems] obtain p' rest' where
      pv': "pivot es' = Some (p', rest')" and fp: "fst p' = fst p" and fr: "map fst rest' = map fst rest"
      by auto
    have "map fst (map (eliminate p) rest) = map fst (map (eliminate p') rest')"
      by (rule eliminate_fst_cong [OF fp [symmetric] fr [symmetric]])
    from Suc.IH [OF this] show ?thesis using Some pr pv' by (auto split: option.splits)
  qed
qed

section \<open>The path of \<open>_fit\<close>\<close>

lemma solve_unique:
  assumes "length b = length A" and "list_all (\<lambda>r. length r = length A) A"
  shows "solve A b = Some x \<longleftrightarrow> unique_solution (length A) (zip A b) x"
proof -
  have "square (length A) (zip A b)"
    using assms by (auto simp: square_set list_all_iff dest: set_zip_leftD)
  then show ?thesis unfolding solve_def by (rule solve_n_unique)
qed

lemma solve_None_indep:
  assumes "length b = length A" and "length b' = length A"
  shows "solve A b = None \<longleftrightarrow> solve A b' = None"
proof -
  have "map fst (zip A b) = map fst (zip A b')" using assms by simp
  then show ?thesis unfolding solve_def by (rule solve_n_rhs_indep)
qed

lemma gram_square: "list_all (\<lambda>r. length r = length (gram cs)) (gram cs)"
  by (simp add: gram_def list_all_iff)

lemma length_gram [simp]: "length (gram cs) = length cs"
  by (simp add: gram_def)

lemma length_xty [simp]: "length (xty cs y) = length cs"
  by (simp add: xty_def)

lemma those_map_Some:
  "(\<And>b. b \<in> set B \<Longrightarrow> f b \<noteq> None) \<Longrightarrow> those (map f B) = Some (map (\<lambda>b. the (f b)) B)"
  by (induction B) (auto split: option.splits)

lemma those_None:
  "those (map f B) = None \<Longrightarrow> \<exists>b \<in> set B. f b = None"
  by (induction B) (auto split: option.splits)

lemma solve_mat_None_iff:
  assumes "\<And>b. b \<in> set B \<Longrightarrow> length b = length A"
  shows "solve_mat A B = None \<longleftrightarrow> solve A (replicate (length A) 0) = None"
proof (cases "solve A (replicate (length A) 0)")
  case None
  then show ?thesis by (simp add: solve_mat_def)
next
  case (Some z)
  have "solve A b \<noteq> None" if "b \<in> set B" for b
    using solve_None_indep [of b A "replicate (length A) 0"] assms [OF that] Some by simp
  then have "those (map (solve A) B) \<noteq> None" using those_None by blast
  with Some show ?thesis by (simp add: solve_mat_def)
qed

lemma map2_same:
  "map2 f xs (map g xs) = map (\<lambda>x. f x (g x)) xs"
  by (induction xs) simp_all

lemma cols_sub_series_mean:
  "cols (sub_series X (mean X)) =
     map (\<lambda>(l, c). (l, map (\<lambda>v. v - sum_list c / real (nrows X)) c)) (cols X)"
  by (simp add: sub_series_def mean_def map2_same case_prod_beta)

lemma cols_add_sub_series_mean:
  "cols (add_series (sub_series X (mean X)) (mean X)) = cols X"
proof -
  have "map2 (\<lambda>(l, c) (k, m). (l, map (\<lambda>v. v + m) c))
          (map (\<lambda>(l, c). (l, map (\<lambda>v. v - sum_list c / real (nrows X)) c)) cs)
          (map (\<lambda>(l, c). (l, sum_list c / real (nrows X))) cs) = cs" for cs
    by (induction cs) (auto simp: comp_def)
  then show ?thesis
    by (simp add: add_series_def cols_sub_series_mean) (simp add: mean_def)
qed

lemma add_sub_series_mean [simp]:
  "add_series (sub_series X (mean X)) (mean X) = X"
proof -
  have "add_series (sub_series X (mean X)) (mean X)
        = X\<lparr>cols := cols (add_series (sub_series X (mean X)) (mean X))\<rparr>"
    by (simp add: add_series_def sub_series_def)
  then show ?thesis by (simp add: cols_add_sub_series_mean)
qed

lemma nrows_sub_series [simp]: "nrows (sub_series X s) = nrows X"
  by (simp add: sub_series_def)

lemma labels_sub_series_mean [simp]: "labels (sub_series X (mean X)) = labels X"
  by (simp add: labels_def cols_sub_series_mean comp_def case_prod_beta)

lemma set_column_fresh:
  "l \<notin> set (labels X) \<Longrightarrow> set_column X l c = X\<lparr>cols := cols X @ [(l, c)]\<rparr>"
  by (simp add: set_column_def set_label_def labels_def)

lemma set_intercept_column:
  "''Intercept'' \<notin> set (labels X) \<Longrightarrow>
   set_column X ''Intercept'' (replicate (nrows X) 1) = with_intercept_column X"
  by (simp add: set_column_fresh with_intercept_column_def)



section \<open>The fitted example\<close>

lemmas fit_defs =
  LinearModel_fit_def fit_inference_def LinearModel_def column_expr_def
  mean_def sub_series_def add_series_def set_column_def set_label_def columns_def labels_def
  gram_def xty_def dot_def solve_mat_def solve_def eliminate_def scaled_identity_def
  diagonal_def rows_def mat_vec_def Let_def

lemma example_fit:
  "example_fitted t_cdf =
     \<lparr>intercept = True, given_ex = column_expr ''x'', given_re = column_expr ''y'',
      ex = Some (column_expr ''x'' example_data), re = Some (column_expr ''y'' example_data),
      bhat = Some [(''x'', 3 / 5), (''Intercept'', 11 / 5)],
      fitted = Some [14 / 5, 17 / 5, 4, 23 / 5, 26 / 5],
      residuals = Some [- (4 / 5), 3 / 5, 1, - (3 / 5), - (1 / 5)],
      std_err_est = Some (sqrt (4 / 5)),
      std_err_vars = Some [(''x'', sqrt (2 / 25)), (''Intercept'', sqrt (22 / 25))],
      var = Some \<lparr>nrows = 2,
                  cols = [(''x'', [2 / 25, - (6 / 25)]), (''Intercept'', [- (6 / 25), 22 / 25])]\<rparr>,
      t_vals = Some [(''x'', 3 / (5 * sqrt (2 / 25))), (''Intercept'', 11 / (5 * sqrt (22 / 25)))],
      p_vals = Some [(''x'', 2 * t_cdf (- (3 / (5 * sqrt (2 / 25)))) 3),
                     (''Intercept'', 2 * t_cdf (- (11 / (5 * sqrt (22 / 25)))) 3)],
      training_data = Some example_data,
      training_x = Some \<lparr>nrows = 5, cols = [(''x'', [1, 2, 3, 4, 5])]\<rparr>,
      training_x_means = Some [(''x'', 3)],
      training_y = Some \<lparr>nrows = 5, cols = [(''y'', [2, 4, 5, 4, 5])]\<rparr>,
      training_y_mean = Some [(''y'', 4)],
      categorical_levels = Map.empty\<rparr>"
  unfolding example_fitted_def example_model_def example_data_def
  by (simp add: fit_defs upt_rec numeral_eq_Suc)

lemma small_fit:
  "LinearModel_fit t_cdf_2df example_model small_data =
     (Inr ([(''x'', 4 / 5), (''Intercept'', 1 / 2)],
           [(''x'', sqrt (9 / 50)), (''Intercept'', sqrt (27 / 20))],
           [(''x'', 4 / (5 * sqrt (9 / 50))), (''Intercept'', 1 / (2 * sqrt (27 / 20)))],
           [(''x'', 2 * t_cdf_2df (- (4 / (5 * sqrt (9 / 50)))) 2),
            (''Intercept'', 2 * t_cdf_2df (- (1 / (2 * sqrt (27 / 20)))) 2)]),
      \<lparr>intercept = True, given_ex = column_expr ''x'', given_re = column_expr ''y'',
       ex = Some (column_expr ''x'' small_data), re = Some (column_expr ''y'' small_data),
       bhat = Some [(''x'', 4 / 5), (''Intercept'', 1 / 2)],
       fitted = Some [13 / 10, 21 / 10, 29 / 10, 37 / 10],
       residuals = Some [- (3 / 10), 9 / 10, - (9 / 10), 3 / 10],
       std_err_est = Some (sqrt (9 / 10)),
       std_err_vars = Some [(''x'', sqrt (9 / 50)), (''Intercept'', sqrt (27 / 20))],
       var = Some \<lparr>nrows = 2,
                   cols = [(''x'', [9 / 50, - (9 / 20)]), (''Intercept'', [- (9 / 20), 27 / 20])]\<rparr>,
       t_vals = Some [(''x'', 4 / (5 * sqrt (9 / 50))), (''Intercept'', 1 / (2 * sqrt (27 / 20)))],
       p_vals = Some [(''x'', 2 * t_cdf_2df (- (4 / (5 * sqrt (9 / 50)))) 2),
                      (''Intercept'', 2 * t_cdf_2df (- (1 / (2 * sqrt (27 / 20)))) 2)],
       training_data = Some small_data,
       training_x = Some \<lparr>nrows = 4, cols = [(''x'', [1, 2, 3, 4])]\<rparr>,
       training_x_means = Some [(''x'', 5 / 2)],
       training_y = Some \<lparr>nrows = 4, cols = [(''y'', [1, 3, 2, 4])]\<rparr>,
       training_y_mean = Some [(''y'', 5 / 2)],
       categorical_levels = Map.empty\<rparr>)"
  unfolding example_model_def small_data_def
  by (simp add: fit_defs upt_rec numeral_eq_Suc)

lemma small_evaluate_x:
  "evaluate (given_ex example_model small_data) small_data True =
     Inr \<lparr>nrows = 4, cols = [(''x'', [1, 2, 3, 4])]\<rparr>"
  by (simp add: example_model_def LinearModel_def column_expr_def small_data_def)

lemma small_evaluate_y:
  "evaluate (given_re example_model small_data) small_data True =
     Inr \<lparr>nrows = 4, cols = [(''y'', [1, 3, 2, 4])]\<rparr>"
  by (simp add: example_model_def LinearModel_def column_expr_def small_data_def)

lemmas predict_defs =
  predict_def frame_dot_def aligned_def column_of_def quadratic_forms_def labels_def columns_def
  set_column_def set_label_def column_expr_def dot_def Let_def
  confidence_interval_width_def prediction_interval_width_def get_sse_def

section \<open>The claims on \<open>r_squared\<close>, \<open>predict\<close> and the sums of squares\<close>

text \<open>
  C2. The claim: \<open>r_squared(adjusted = False)\<close> is \<open>1 - SSE/SST\<close>, and the two sums are
  divided by their degrees of freedom only when \<open>adjusted\<close> is set. In the source the
  two branches stand the other way round: on the fitted example, where \<open>SSE = 12/5\<close> and
  \<open>SST = 6\<close>, the call with \<open>adjusted = False\<close> returns
  \<open>1 - (SSE / (5 - 1 - 2)) / (SST / (5 - 1)) = 1/5\<close>, and the call with
  \<open>adjusted = True\<close> returns \<open>1 - SSE/SST = 3/5\<close>.
\<close>

theorem r_squared_example_branches_swapped:
  "r_squared t_ppf f_ppf (example_fitted t_cdf) None None False = Inr (1 / 5) \<and>
   r_squared t_ppf f_ppf (example_fitted t_cdf) None None True = Inr (3 / 5)"
  unfolding example_fit
  by (simp add: r_squared_def predict_defs example_data_def upt_rec numeral_eq_Suc)

text \<open>
  C3. The claim: \<open>predict\<close> with both interval flags fails with an invalid-input error,
  and with one flag it attaches the bounds. In the source the flags are never tested
  against each other, and every call with a flag set ends at \<open>lower = y_vals - widths\<close>
  with \<open>y_vals\<close> unbound: on the fitted example, at the new point \<open>x = 6\<close>, each of
  the three calls raises \<open>NameError\<close>, and only the call without a flag returns the
  prediction \<open>11/5 + 6 * 3/5\<close>.
\<close>

theorem predict_interval_flags_raise_NameError:
  "predict t_ppf f_ppf (example_fitted t_cdf) [(''x'', [6])] True False (5 / 100) = Inl NameError \<and>
   predict t_ppf f_ppf (example_fitted t_cdf) [(''x'', [6])] False True (5 / 100) = Inl NameError \<and>
   predict t_ppf f_ppf (example_fitted t_cdf) [(''x'', [6])] True True (5 / 100) = Inl NameError \<and>
   predict t_ppf f_ppf (example_fitted t_cdf) [(''x'', [6])] False False (5 / 100) =
     Inr \<lparr>nrows = 1, cols = [(''Predicted y'', [29 / 5])]\<rparr>"
  unfolding example_fit
  by (simp add: predict_defs example_data_def upt_rec numeral_eq_Suc)

text \<open>
  C4. The claim: the value of \<open>get_sst\<close> is the sum of the values of \<open>get_sse\<close> and
  \<open>get_ssr\<close>. In the source \<open>get_sst\<close> indexes the training response as
  \<open>self.training_y[:,0]\<close> (without \<open>.iloc\<close>) and raises on every model, and
  \<open>get_ssr\<close>, which calls it first, raises with it: neither returns a number, on the
  fitted example or anywhere else, while \<open>get_sse\<close> returns \<open>12/5\<close> there.
\<close>

theorem get_sst_never_returns:
  "isl (get_sst self) \<and> isl (get_ssr self) \<and>
   get_sst (example_fitted t_cdf) = Inl TypeError \<and>
   get_ssr (example_fitted t_cdf) = Inl TypeError \<and>
   get_sse (example_fitted t_cdf) = Inr (12 / 5)"
proof -
  have a: "isl (get_sst self)"
    by (simp add: get_sst_def split: option.split list.split)
  then have b: "isl (get_ssr self)"
    by (cases "get_sst self") (simp_all add: get_ssr_def)
  have c: "get_sst (example_fitted t_cdf) = Inl TypeError"
    unfolding example_fit by (simp add: get_sst_def columns_def)
  then have d: "get_ssr (example_fitted t_cdf) = Inl TypeError"
    by (simp add: get_ssr_def)
  have e: "get_sse (example_fitted t_cdf) = Inr (12 / 5)"
    unfolding example_fit by (simp add: get_sse_def columns_def power2_eq_square)
  from a b c d e show ?thesis by blast
qed

section \<open>The claims on the fit\<close>



lemma fit_solve_None:
  assumes "evaluate (given_ex self data) data True = Inr X"
    and "evaluate (given_re self data) data True = Inr y"
    and "solve_mat (gram (columns (if intercept self then sub_series X (mean X) else X)))
           (map (xty (columns (if intercept self then sub_series X (mean X) else X)))
                (columns (if intercept self then sub_series y (mean y) else y))) = None"
  shows "LinearModel_fit t_cdf self data =
           (Inl LinAlgError,
            self\<lparr>categorical_levels := Map.empty, training_data := Some data,
                 ex := Some (given_ex self data), re := Some (given_re self data),
                 training_x := Some X, training_x_means := Some (mean X),
                 training_y := Some y, training_y_mean := Some (mean y)\<rparr>)"
  using assms by (cases "intercept self") (simp_all add: LinearModel_fit_def Let_def)

text \<open>
  C8. The claim: a fit replaces the stored state in one step, and when the design matrix
  is rank-deficient the error leaves the state of the previous fit unchanged. The source
  assigns the fields one after the other and calls \<open>numpy.linalg.solve\<close> in between.
  What holds: when that call, on the normal equations (of the centred columns, with an
  intercept), raises the singular-system error, the error is the result of the fit; the
  coefficients, the fitted values, the residuals, the residual standard error, the
  covariance matrix, the standard errors, the t statistics and the p-values are then
  those before the call, while the training data, the design matrix and the response
  with their means, the interpreted expressions and the categorical level registry
  (emptied at the start of the call) are already those of the failed call. The
  hypothesis is the failure of the solver, not the rank of the matrix: the model's
  solver is exact and fails on every singular matrix, whereas the floating-point routine
  fails only where its elimination meets a pivot that is exactly zero, so that a
  rank-deficient design (a constant column of \<open>0.1\<close>, whose computed mean differs
  from \<open>0.1\<close> in the last bit) can pass it and overwrite the coefficients as well.
\<close>

theorem failed_solve_keeps_coefficients_overwrites_training_state:
  assumes "evaluate (given_ex self data) data True = Inr X"
    and "evaluate (given_re self data) data True = Inr y"
    and "solve_mat (gram (columns (if intercept self then sub_series X (mean X) else X)))
           (map (xty (columns (if intercept self then sub_series X (mean X) else X)))
                (columns (if intercept self then sub_series y (mean y) else y))) = None"
  shows "LinearModel_fit t_cdf self data =
           (Inl LinAlgError,
            self\<lparr>categorical_levels := Map.empty, training_data := Some data,
                 ex := Some (given_ex self data), re := Some (given_re self data),
                 training_x := Some X, training_x_means := Some (mean X),
                 training_y := Some y, training_y_mean := Some (mean y)\<rparr>) \<and>
         bhat (snd (LinearModel_fit t_cdf self data)) = bhat self \<and>
         fitted (snd (LinearModel_fit t_cdf self data)) = fitted self \<and>
         residuals (snd (LinearModel_fit t_cdf self data)) = residuals self \<and>
         std_err_est (snd (LinearModel_fit t_cdf self data)) = std_err_est self \<and>
         var (snd (LinearModel_fit t_cdf self data)) = var self \<and>
         std_err_vars (snd (LinearModel_fit t_cdf self data)) = std_err_vars self \<and>
         t_vals (snd (LinearModel_fit t_cdf self data)) = t_vals self \<and>
         p_vals (snd (LinearModel_fit t_cdf self data)) = p_vals self"
  unfolding fit_solve_None [OF assms] by simp

lemma degenerate_evaluate_x:
  "evaluate (given_ex small_fitted degenerate_data) degenerate_data True =
     Inr \<lparr>nrows = 4, cols = [(''x'', [1, 1, 1, 1])]\<rparr>"
  unfolding small_fitted_def small_fit
  by (simp add: column_expr_def degenerate_data_def)

lemma degenerate_evaluate_y:
  "evaluate (given_re small_fitted degenerate_data) degenerate_data True =
     Inr \<lparr>nrows = 4, cols = [(''y'', [1, 3, 2, 4])]\<rparr>"
  unfolding small_fitted_def small_fit
  by (simp add: column_expr_def degenerate_data_def)

lemma degenerate_solve_None:
  "solve_mat
     (gram (columns
        (if intercept small_fitted
         then sub_series \<lparr>nrows = 4, cols = [(''x'', [1, 1, 1, 1])]\<rparr>
                (mean \<lparr>nrows = 4, cols = [(''x'', [1, 1, 1, 1])]\<rparr>)
         else \<lparr>nrows = 4, cols = [(''x'', [1, 1, 1, 1])]\<rparr>)))
     (map (xty (columns
        (if intercept small_fitted
         then sub_series \<lparr>nrows = 4, cols = [(''x'', [1, 1, 1, 1])]\<rparr>
                (mean \<lparr>nrows = 4, cols = [(''x'', [1, 1, 1, 1])]\<rparr>)
         else \<lparr>nrows = 4, cols = [(''x'', [1, 1, 1, 1])]\<rparr>)))
        (columns
           (if intercept small_fitted
            then sub_series \<lparr>nrows = 4, cols = [(''y'', [1, 3, 2, 4])]\<rparr>
                   (mean \<lparr>nrows = 4, cols = [(''y'', [1, 3, 2, 4])]\<rparr>)
            else \<lparr>nrows = 4, cols = [(''y'', [1, 3, 2, 4])]\<rparr>))) = None"
  unfolding small_fitted_def small_fit
  by (simp add: gram_def xty_def columns_def sub_series_def mean_def solve_mat_def solve_def)

theorem failed_solve_keeps_coefficients_overwrites_training_state_witness:
  "LinearModel_fit t_cdf_2df small_fitted degenerate_data =
     (Inl LinAlgError,
      small_fitted\<lparr>categorical_levels := Map.empty, training_data := Some degenerate_data,
           ex := Some (column_expr ''x'' degenerate_data),
           re := Some (column_expr ''y'' degenerate_data),
           training_x := Some \<lparr>nrows = 4, cols = [(''x'', [1, 1, 1, 1])]\<rparr>,
           training_x_means := Some [(''x'', 1)],
           training_y := Some \<lparr>nrows = 4, cols = [(''y'', [1, 3, 2, 4])]\<rparr>,
           training_y_mean := Some [(''y'', 5 / 2)]\<rparr>) \<and>
   bhat (snd (LinearModel_fit t_cdf_2df small_fitted degenerate_data))
     = Some [(''x'', 4 / 5), (''Intercept'', 1 / 2)] \<and>
   fitted (snd (LinearModel_fit t_cdf_2df small_fitted degenerate_data))
     = Some [13 / 10, 21 / 10, 29 / 10, 37 / 10]"
proof -
  have g: "given_ex small_fitted = column_expr ''x''" "given_re small_fitted = column_expr ''y''"
    "bhat small_fitted = Some [(''x'', 4 / 5), (''Intercept'', 1 / 2)]"
    "fitted small_fitted = Some [13 / 10, 21 / 10, 29 / 10, 37 / 10]"
    unfolding small_fitted_def small_fit by simp_all
  from failed_solve_keeps_coefficients_overwrites_training_state
         [OF degenerate_evaluate_x degenerate_evaluate_y degenerate_solve_None, of t_cdf_2df]
  show ?thesis
    by (simp add: g mean_def)
qed

text \<open>
  The claim as stated fails: the second fit below raises the singular-system error, and
  the training data it leaves are those of the failed call, not those of the fit before.
\<close>

theorem failed_fit_changes_stored_state:
  "fst (LinearModel_fit t_cdf_2df small_fitted degenerate_data) = Inl LinAlgError \<and>
   training_data small_fitted = Some small_data \<and>
   training_data (snd (LinearModel_fit t_cdf_2df small_fitted degenerate_data))
     = Some degenerate_data \<and>
   snd (LinearModel_fit t_cdf_2df small_fitted degenerate_data) \<noteq> small_fitted"
proof -
  have a: "training_data small_fitted = Some small_data"
    unfolding small_fitted_def small_fit by simp
  have b: "LinearModel_fit t_cdf_2df small_fitted degenerate_data =
     (Inl LinAlgError,
      small_fitted\<lparr>categorical_levels := Map.empty, training_data := Some degenerate_data,
           ex := Some (given_ex small_fitted degenerate_data),
           re := Some (given_re small_fitted degenerate_data),
           training_x := Some \<lparr>nrows = 4, cols = [(''x'', [1, 1, 1, 1])]\<rparr>,
           training_x_means := Some (mean \<lparr>nrows = 4, cols = [(''x'', [1, 1, 1, 1])]\<rparr>),
           training_y := Some \<lparr>nrows = 4, cols = [(''y'', [1, 3, 2, 4])]\<rparr>,
           training_y_mean := Some (mean \<lparr>nrows = 4, cols = [(''y'', [1, 3, 2, 4])]\<rparr>)\<rparr>)"
    by (rule fit_solve_None [OF degenerate_evaluate_x degenerate_evaluate_y
          degenerate_solve_None])
  have c: "degenerate_data \<noteq> small_data"
    by (simp add: degenerate_data_def small_data_def)
  have d: "training_data (snd (LinearModel_fit t_cdf_2df small_fitted degenerate_data))
             = Some degenerate_data"
    unfolding b by simp
  have "snd (LinearModel_fit t_cdf_2df small_fitted degenerate_data) \<noteq> small_fitted"
  proof
    assume "snd (LinearModel_fit t_cdf_2df small_fitted degenerate_data) = small_fitted"
    with d a c show False by simp
  qed
  with a b d show ?thesis by simp
qed

section \<open>Centring against an explicit column of ones\<close>

lemma dot_sub_const_left:
  "length c = length d \<Longrightarrow> dot (map (\<lambda>v. v - m) c) d = dot c d - m * sum_list d"
  by (induction c d rule: list_induct2) (simp_all add: algebra_simps)

lemma dot_sub_const_right:
  "length c = length d \<Longrightarrow> dot c (map (\<lambda>v. v - m) d) = dot c d - m * sum_list c"
  by (induction c d rule: list_induct2) (simp_all add: algebra_simps)

lemma sum_list_sub_const:
  "sum_list (map (\<lambda>v. v - m) c) = sum_list c - real (length c) * m"
  by (induction c) (simp_all add: algebra_simps)

lemma dot_center:
  assumes "length c = n" and "length d = n" and "0 < n"
  shows "dot (center n c) (center n d) = dot c d - (sum_list c / real n) * sum_list d"
proof -
  have "dot (center n c) (center n d)
        = dot c (center n d) - (sum_list c / real n) * sum_list (center n d)"
    unfolding center_def [of n c] using assms by (simp add: dot_sub_const_left center_def)
  also have "dot c (center n d) = dot c d - (sum_list d / real n) * sum_list c"
    unfolding center_def using assms by (simp add: dot_sub_const_right)
  also have "sum_list (center n d) = 0"
    unfolding center_def using assms by (simp add: sum_list_sub_const)
  finally show ?thesis by (simp add: algebra_simps)
qed

lemma dot_ones_right: "length c = n \<Longrightarrow> dot c (replicate n 1) = sum_list c"
  by (induction c arbitrary: n) auto

lemma dot_ones_left: "length c = n \<Longrightarrow> dot (replicate n 1) c = sum_list c"
  by (induction c arbitrary: n) auto

lemma dot_snoc:
  "length as = length bs \<Longrightarrow> dot (as @ [a]) (bs @ [b]) = dot as bs + a * b"
  by (induction as bs rule: list_induct2) simp_all

lemma dot_map_linear:
  "dot (map (\<lambda>d. F d - A * G d) cs) x = dot (map F cs) x - A * dot (map G cs) x"
proof (induction cs arbitrary: x)
  case Nil
  then show ?case by simp
next
  case (Cons c cs)
  then show ?case by (cases x) (simp_all add: algebra_simps)
qed

lemma dot_map_divide:
  "dot (map (\<lambda>d. G d / k) cs) x = dot (map G cs) x / k"
proof (induction cs arbitrary: x)
  case Nil
  then show ?case by simp
next
  case (Cons c cs)
  then show ?case by (cases x) (simp_all add: add_divide_distrib)
qed

lemma sat_normal_equations:
  "sat (zip (gram cs) (xty cs y)) x \<longleftrightarrow> (\<forall>c \<in> set cs. dot (map (dot c) cs) x = dot c y)"
proof -
  have "zip (gram cs) (xty cs y) = map (\<lambda>c. (map (dot c) cs, dot c y)) cs"
    by (simp add: gram_def xty_def zip_map_map) (simp add: zip_same_conv_map)
  then show ?thesis by (simp add: sat_set)
qed

text \<open>
  The normal equations of the centred columns against those of the columns with a
  column of ones appended.
\<close>

lemma centered_iff_augmented:
  assumes n: "0 < n" and lc: "\<forall>c \<in> set cs. length c = n" and ly: "length y = n"
    and lx: "length x = length cs"
  shows "sat (zip (gram (cs @ [replicate n 1])) (xty (cs @ [replicate n 1]) y)) (x @ [b0]) \<longleftrightarrow>
         sat (zip (gram (map (center n) cs)) (xty (map (center n) cs) (center n y))) x \<and>
         b0 = sum_list y / real n - dot (map (\<lambda>c. sum_list c / real n) cs) x"
proof -
  let ?S = "dot (map sum_list cs) x"
  let ?P = "\<lambda>c. dot (map (dot c) cs) x"
  have means: "dot (map (\<lambda>c. sum_list c / real n) cs) x = ?S / real n"
    by (rule dot_map_divide)
  have aug_row: "dot (map (dot c) (cs @ [replicate n 1])) (x @ [b0]) = ?P c + sum_list c * b0"
    if "length c = n" for c
    using that lx by (simp add: dot_snoc dot_ones_right)
  have ones_row: "dot (map (dot (replicate n 1)) (cs @ [replicate n 1])) (x @ [b0])
                  = ?S + real n * b0"
  proof -
    have m: "map (dot (replicate n 1)) cs = map sum_list cs"
      using lc by (simp add: dot_ones_left)
    have o: "dot (replicate n 1) (replicate n 1) = real n"
      by (simp add: dot_ones_left sum_list_replicate)
    show ?thesis using lx by (simp add: dot_snoc m o)
  qed
  have cen_row: "dot (map (dot (center n c)) (map (center n) cs)) x
                 = ?P c - (sum_list c / real n) * ?S"
    if "length c = n" for c
  proof -
    have e: "map (dot (center n c)) (map (center n) cs)
          = map (\<lambda>d. dot c d - (sum_list c / real n) * sum_list d) cs"
      using lc that n by (simp add: dot_center)
    show ?thesis by (simp only: e dot_map_linear)
  qed
  have cen_rhs: "dot (center n c) (center n y) = dot c y - (sum_list c / real n) * sum_list y"
    if "length c = n" for c
    using that ly n by (rule dot_center)
  have aug: "sat (zip (gram (cs @ [replicate n 1])) (xty (cs @ [replicate n 1]) y)) (x @ [b0]) \<longleftrightarrow>
             (\<forall>c \<in> set cs. ?P c + sum_list c * b0 = dot c y) \<and> ?S + real n * b0 = sum_list y"
    unfolding sat_normal_equations using lc ly aug_row ones_row
    by (auto simp: dot_ones_left)
  have cen: "sat (zip (gram (map (center n) cs)) (xty (map (center n) cs) (center n y))) x \<longleftrightarrow>
             (\<forall>c \<in> set cs. ?P c - (sum_list c / real n) * ?S
                              = dot c y - (sum_list c / real n) * sum_list y)"
    unfolding sat_normal_equations using lc cen_row cen_rhs by auto
  have b0: "?S + real n * b0 = sum_list y \<longleftrightarrow> b0 = sum_list y / real n - ?S / real n"
    using n by (auto simp: field_simps)
  have row: "?P c + sum_list c * b0 = dot c y \<longleftrightarrow>
             ?P c - (sum_list c / real n) * ?S = dot c y - (sum_list c / real n) * sum_list y"
    if "b0 = sum_list y / real n - ?S / real n" for c
    unfolding that using n by (auto simp: field_simps)
  show ?thesis
    unfolding aug cen means b0 using row by blast
qed

lemma unique_centered_iff_augmented:
  assumes n: "0 < n" and lc: "\<forall>c \<in> set cs. length c = n" and ly: "length y = n"
  defines "b0 \<equiv> \<lambda>x. sum_list y / real n - dot (map (\<lambda>c. sum_list c / real n) cs) x"
  defines "Aug \<equiv> zip (gram (cs @ [replicate n 1])) (xty (cs @ [replicate n 1]) y)"
  defines "Cen \<equiv> zip (gram (map (center n) cs)) (xty (map (center n) cs) (center n y))"
  shows "unique_solution (length cs) Cen x \<Longrightarrow> unique_solution (Suc (length cs)) Aug (x @ [b0 x])"
    and "unique_solution (Suc (length cs)) Aug g \<Longrightarrow>
         \<exists>x. g = x @ [b0 x] \<and> unique_solution (length cs) Cen x"
proof -
  have iff: "sat Aug (x @ [b]) \<longleftrightarrow> sat Cen x \<and> b = b0 x" if "length x = length cs" for x b
    unfolding Aug_def Cen_def b0_def by (rule centered_iff_augmented [OF n lc ly that])
  have split: "\<exists>x b. g = x @ [b] \<and> length x = length cs" if "length g = Suc (length cs)" for g :: "real list"
  proof -
    from that have "g \<noteq> []" by auto
    then have "g = butlast g @ [last g]" by simp
    moreover have "length (butlast g) = length cs" using that by simp
    ultimately show ?thesis by blast
  qed
  {
    assume u: "unique_solution (length cs) Cen x"
    note lx = unique_solution_length [OF u]
    show "unique_solution (Suc (length cs)) Aug (x @ [b0 x])"
    proof (rule unique_solutionI)
      show "length (x @ [b0 x]) = Suc (length cs)" using lx by simp
      show "sat Aug (x @ [b0 x])" using iff [OF lx] unique_solution_sat [OF u] by blast
    next
      fix g assume lg: "length g = Suc (length cs)" and sg: "sat Aug g"
      from split [OF lg] obtain x' b where g: "g = x' @ [b]" and lx': "length x' = length cs"
        by blast
      from sg iff [OF lx'] have "sat Cen x'" and b: "b = b0 x'" unfolding g by blast+
      from unique_solution_eq [OF u lx' this(1)] have "x' = x" .
      with b g show "g = x @ [b0 x]" by simp
    qed
  }
  {
    assume u: "unique_solution (Suc (length cs)) Aug g"
    from split [OF unique_solution_length [OF u]] obtain x b where
      g: "g = x @ [b]" and lx: "length x = length cs" by blast
    from unique_solution_sat [OF u] iff [OF lx] have sx: "sat Cen x" and b: "b = b0 x"
      unfolding g by blast+
    have "unique_solution (length cs) Cen x"
    proof (rule unique_solutionI [OF lx sx])
      fix x' assume lx': "length x' = length cs" and sx': "sat Cen x'"
      from iff [OF lx'] sx' have "sat Aug (x' @ [b0 x'])" by blast
      moreover have "length (x' @ [b0 x']) = Suc (length cs)" using lx' by simp
      ultimately have "x' @ [b0 x'] = g" by (rule unique_solution_eq [OF u, rotated])
      then show "x' = x" unfolding g by simp
    qed
    with g b show "\<exists>x. g = x @ [b0 x] \<and> unique_solution (length cs) Cen x" by blast
  }
qed

lemma columns_with_intercept_column:
  "columns (with_intercept_column X) = columns X @ [replicate (nrows X) 1]"
  by (simp add: with_intercept_column_def columns_def)

lemma explicit_ols_centered:
  assumes n: "0 < nrows X" and wf: "wf_frame X" and ly: "length y = nrows X"
  shows "explicit_intercept_ols X y =
           map_option
             (\<lambda>x. x @ [sum_list y / real (nrows X)
                        - dot (map (\<lambda>c. sum_list c / real (nrows X)) (columns X)) x])
             (solve (gram (map (center (nrows X)) (columns X)))
                    (xty (map (center (nrows X)) (columns X)) (center (nrows X) y)))"
proof -
  let ?n = "nrows X" and ?cs = "columns X"
  let ?A = "gram (?cs @ [replicate ?n 1])" and ?bA = "xty (?cs @ [replicate ?n 1]) y"
  let ?C = "gram (map (center ?n) ?cs)" and ?bC = "xty (map (center ?n) ?cs) (center ?n y)"
  let ?b0 = "\<lambda>x. sum_list y / real ?n - dot (map (\<lambda>c. sum_list c / real ?n) ?cs) x"
  from wf have lc: "\<forall>c \<in> set ?cs. length c = ?n" by (simp add: wf_frame_def list_all_iff)
  have uA: "solve ?A ?bA = Some g \<longleftrightarrow> unique_solution (Suc (length ?cs)) (zip ?A ?bA) g" for g
    using solve_unique [of ?bA ?A g] gram_square [of "?cs @ [replicate ?n 1]"] by simp
  have uC: "solve ?C ?bC = Some x \<longleftrightarrow> unique_solution (length ?cs) (zip ?C ?bC) x" for x
    using solve_unique [of ?bC ?C x] gram_square [of "map (center ?n) ?cs"] by simp
  have ex: "explicit_intercept_ols X y = solve ?A ?bA"
    by (simp add: explicit_intercept_ols_def columns_with_intercept_column)
  show ?thesis
  proof (cases "solve ?C ?bC")
    case (Some x)
    with uC have "unique_solution (length ?cs) (zip ?C ?bC) x" by blast
    from unique_centered_iff_augmented(1) [OF n lc ly this]
    have "solve ?A ?bA = Some (x @ [?b0 x])" using uA by blast
    with Some ex show ?thesis by simp
  next
    case None
    have "solve ?A ?bA = None"
    proof (rule ccontr)
      assume "solve ?A ?bA \<noteq> None"
      then obtain g where "solve ?A ?bA = Some g" by blast
      with uA have "unique_solution (Suc (length ?cs)) (zip ?A ?bA) g" by blast
      from unique_centered_iff_augmented(2) [OF n lc ly this] obtain x where
        "unique_solution (length ?cs) (zip ?C ?bC) x" by blast
      with uC None show False by simp
    qed
    with None ex show ?thesis by simp
  qed
qed

lemma columns_sub_series_mean:
  "columns (sub_series X (mean X)) = map (center (nrows X)) (columns X)"
  by (simp add: columns_def cols_sub_series_mean center_def comp_def case_prod_beta)

lemma solve_mat_single:
  assumes "length b = length A"
  shows "solve_mat A [b] = map_option (\<lambda>x. [x]) (solve A b)"
proof (cases "solve A b")
  case None
  with solve_None_indep [OF assms, of "replicate (length A) 0"] show ?thesis
    by (simp add: solve_mat_def)
next
  case (Some x)
  with solve_None_indep [OF assms, of "replicate (length A) 0"]
  obtain z where "solve A (replicate (length A) 0) = Some z" by auto
  with Some show ?thesis by (simp add: solve_mat_def)
qed

lemma solve_mat_scaled_identity:
  assumes "solve (gram cs) b = Some x" and "length b = length cs"
  shows "solve_mat (gram cs) (scaled_identity s (length cs)) \<noteq> None"
proof -
  have a: "solve (gram cs) (replicate (length (gram cs)) 0) \<noteq> None"
    using solve_None_indep [of b "gram cs" "replicate (length (gram cs)) 0"] assms by simp
  have "solve_mat (gram cs) (scaled_identity s (length cs)) = None \<longleftrightarrow>
        solve (gram cs) (replicate (length (gram cs)) 0) = None"
    by (rule solve_mat_None_iff) (auto simp: scaled_identity_def)
  with a show ?thesis by simp
qed

lemma fit_inference_solvable:
  assumes "\<And>s. solve_mat (gram (columns X)) (scaled_identity s (length (cols X))) \<noteq> None"
  shows "\<not> isl (fst (fit_inference t_cdf s0 X y b)) \<and>
         bhat (snd (fit_inference t_cdf s0 X y b)) = Some b \<and>
         fitted (snd (fit_inference t_cdf s0 X y b)) = Some (mat_vec (rows X) (map snd b))"
proof -
  obtain V where V: "solve_mat (gram (columns X))
      (scaled_identity
         ((sqrt (sum_list (map (\<lambda>r. r\<^sup>2) (map2 (\<lambda>v f. v - f) y (mat_vec (rows X) (map snd b))))
                 / real_of_int (int (nrows X)
                     - (int (length (cols X)) - (if intercept s0 then 1 else 0)) - 1)))\<^sup>2)
         (length (cols X))) = Some V"
    using assms by blast
  show ?thesis
    unfolding fit_inference_def Let_def V by simp
qed

lemma set_label_fresh_zip:
  assumes "l \<notin> set ls" and "length xs = length ls"
  shows "set_label (zip ls xs) l v = zip (ls @ [l]) (xs @ [v])"
  using assms by (simp add: set_label_def)

lemma mean_single:
  "mean \<lparr>nrows = n, cols = [(l, y)]\<rparr> = [(l, sum_list y / real n)]"
  by (simp add: mean_def)

lemma columns_sub_series_single:
  "columns (sub_series \<lparr>nrows = n, cols = [(l, y)]\<rparr> [(l, sum_list y / real n)]) = [center n y]"
  by (simp add: columns_def sub_series_def center_def)

lemma columns_add_sub_series_single:
  "columns (add_series (sub_series \<lparr>nrows = n, cols = [(l, y)]\<rparr> [(l, m)]) [(l, m)]) = [y]"
  by (simp add: columns_def add_series_def sub_series_def comp_def)

text \<open>
  C1. With an intercept, the fit centres \<open>X\<close> and \<open>y\<close>, solves the normal
  equations of the centred data and sets the intercept to \<open>\<bar>y - \<bar>X\<^sup>T\<beta>\<close>. The claim
  is that, for every design matrix, its coefficient vector is that of ordinary least
  squares on the uncentred \<open>X\<close> with an explicit column of ones, and that the fitted
  values come from the uncentred \<open>X\<close> with that column appended. What holds: for a
  design matrix none of whose columns is itself labelled \<open>Intercept\<close>, whenever the
  normal equations of the widened matrix have a unique solution, the fit succeeds and
  stores exactly that solution, labelled by the columns of \<open>X\<close> and
  \<open>Intercept\<close>, and the fitted values are the rows of the uncentred \<open>X\<close>, the
  column of ones appended, times that vector. The design matrix is a well-formed frame
  of at least one row, the response a single column of as many rows; arithmetic is exact,
  in the fit and in the least-squares problem it is compared with.
\<close>

theorem centered_fit_is_explicit_intercept_ols:
  assumes "intercept self"
    and "evaluate (given_ex self data) data True = Inr X"
    and "evaluate (given_re self data) data True = Inr \<lparr>nrows = nrows X, cols = [(ly, y)]\<rparr>"
    and "wf_frame X" and "length y = nrows X" and "0 < nrows X"
    and "''Intercept'' \<notin> set (labels X)"
    and "explicit_intercept_ols X y = Some g"
  shows "\<not> isl (fst (LinearModel_fit t_cdf self data)) \<and>
         bhat (snd (LinearModel_fit t_cdf self data))
           = Some (zip (labels (with_intercept_column X)) g) \<and>
         fitted (snd (LinearModel_fit t_cdf self data))
           = Some (mat_vec (rows (with_intercept_column X)) g)"
proof -
  let ?n = "nrows X" and ?cs = "columns X"
  let ?C = "gram (map (center ?n) ?cs)" and ?bC = "xty (map (center ?n) ?cs) (center ?n y)"
  let ?icpt = "\<lambda>x. sum_list y / real ?n - dot (map (\<lambda>c. sum_list c / real ?n) ?cs) x"
  let ?Y = "\<lparr>nrows = nrows X, cols = [(ly, y)]\<rparr>"
  let ?s3 = "self\<lparr>categorical_levels := Map.empty, training_data := Some data,
                   ex := Some (given_ex self data), re := Some (given_re self data),
                   training_x := Some X, training_x_means := Some (mean X),
                   training_y := Some ?Y, training_y_mean := Some (mean ?Y)\<rparr>"
  note ols = explicit_ols_centered [OF assms(6,4,5)]
  have sm: "solve_mat ?C [?bC] = map_option (\<lambda>x. [x]) (solve ?C ?bC)"
    by (rule solve_mat_single) simp
  have means: "map snd (mean X) = map (\<lambda>c. sum_list c / real ?n) ?cs"
    by (simp add: mean_def columns_def comp_def case_prod_beta)
  show ?thesis
  proof (cases "solve ?C ?bC")
    case None
    with ols have "explicit_intercept_ols X y = None" by simp
    with assms(8) show ?thesis by simp
  next
    case (Some x)
    with ols have e: "explicit_intercept_ols X y = Some (x @ [?icpt x])" by simp
    with assms(8) have g: "g = x @ [?icpt x]" by simp
    from Some have "unique_solution (length ?C) (zip ?C ?bC) x"
      using solve_unique [of ?bC ?C x] gram_square [of "map (center ?n) ?cs"] by simp
    then have lx: "length x = length (labels X)"
      by (simp add: unique_solution_def labels_def columns_def)
    let ?b = "zip (labels (with_intercept_column X)) (x @ [?icpt x])"
    have lab: "labels (with_intercept_column X) = labels X @ [''Intercept'']"
      by (simp add: with_intercept_column_def labels_def)
    have b: "set_label (zip (labels X) x) ''Intercept''
               (sum_list y / real ?n - dot (map snd (mean X)) (map snd (zip (labels X) x))) = ?b"
      using lx assms(7) by (simp add: set_label_fresh_zip lab means)
    have sb: "map snd ?b = x @ [?icpt x]"
      using lx by (simp add: lab)
    have fit: "LinearModel_fit t_cdf self data
               = fit_inference t_cdf ?s3 (with_intercept_column X) y ?b"
      using assms(1,2,3,7) Some sm b
      by (simp add: LinearModel_fit_def Let_def mean_single columns_sub_series_single
            columns_sub_series_mean set_intercept_column columns_add_sub_series_single)
    from e have "solve (gram (columns (with_intercept_column X)))
                   (xty (columns (with_intercept_column X)) y) = Some (x @ [?icpt x])"
      by (simp add: explicit_intercept_ols_def)
    from solve_mat_scaled_identity [OF this]
    have "solve_mat (gram (columns (with_intercept_column X)))
              (scaled_identity s (length (cols (with_intercept_column X)))) \<noteq> None" for s
      by (simp add: columns_def)
    from fit_inference_solvable [OF this]
    have "\<not> isl (fst (fit_inference t_cdf ?s3 (with_intercept_column X) y ?b)) \<and>
          bhat (snd (fit_inference t_cdf ?s3 (with_intercept_column X) y ?b)) = Some ?b \<and>
          fitted (snd (fit_inference t_cdf ?s3 (with_intercept_column X) y ?b))
            = Some (mat_vec (rows (with_intercept_column X)) (map snd ?b))" .
    then show ?thesis unfolding g fit sb by simp
  qed
qed

theorem centered_fit_is_explicit_intercept_ols_witness:
  "explicit_intercept_ols \<lparr>nrows = 4, cols = [(''x'', [1, 2, 3, 4])]\<rparr> [1, 3, 2, 4]
     = Some [4 / 5, 1 / 2] \<and>
   \<not> isl (fst (LinearModel_fit t_cdf_2df example_model small_data)) \<and>
   bhat small_fitted = Some [(''x'', 4 / 5), (''Intercept'', 1 / 2)] \<and>
   fitted small_fitted = Some [13 / 10, 21 / 10, 29 / 10, 37 / 10]"
proof -
  let ?X = "\<lparr>nrows = 4, cols = [(''x'', [1, 2, 3, 4 :: real])]\<rparr>"
  have e: "explicit_intercept_ols ?X [1, 3, 2, 4] = Some [4 / 5, 1 / 2]"
    by (simp add: explicit_intercept_ols_def with_intercept_column_def columns_def gram_def
          xty_def solve_def eliminate_def dot_def numeral_eq_Suc)
  have h1: "intercept example_model"
    by (simp add: example_model_def LinearModel_def)
  have h3: "evaluate (given_re example_model small_data) small_data True
              = Inr \<lparr>nrows = nrows ?X, cols = [(''y'', [1, 3, 2, 4])]\<rparr>"
    using small_evaluate_y by simp
  have h4: "wf_frame ?X"
    by (simp add: wf_frame_def columns_def)
  have h5: "length [1, 3, 2, 4 :: real] = nrows ?X" by simp
  have h6: "0 < nrows ?X" by simp
  have h7: "''Intercept'' \<notin> set (labels ?X)" by (simp add: labels_def)
  from centered_fit_is_explicit_intercept_ols
         [OF h1 small_evaluate_x h3 h4 h5 h6 h7 e, of t_cdf_2df]
  have r: "\<not> isl (fst (LinearModel_fit t_cdf_2df example_model small_data)) \<and>
      bhat (snd (LinearModel_fit t_cdf_2df example_model small_data))
        = Some [(''x'', 4 / 5), (''Intercept'', 1 / 2)] \<and>
      fitted (snd (LinearModel_fit t_cdf_2df example_model small_data))
        = Some [13 / 10, 21 / 10, 29 / 10, 37 / 10]"
    by (simp add: with_intercept_column_def labels_def rows_def mat_vec_def columns_def
          dot_def upt_rec numeral_eq_Suc)
  show ?thesis
    unfolding small_fitted_def using e r by blast
qed

text \<open>
  The claim as stated, for every design matrix, fails on one whose column is itself
  labelled \<open>Intercept\<close>: the slope \<open>1/2\<close> of the centred solve is stored under that
  label, the assignment of the intercept \<open>2 - 2 \<sqdot> 1/2 = 1\<close> to the same label
  overwrites it, and the assignment of the column of ones overwrites the column itself.
  The fit returns the single coefficient \<open>1\<close> and fitted values that are constant,
  where least squares with an explicit column of ones has the two coefficients
  \<open>1/2\<close> and \<open>1\<close>.
\<close>

theorem intercept_labelled_column_is_overwritten:
  "\<not> isl (fst (LinearModel_fit t_cdf_2df intercept_named_model intercept_named_data)) \<and>
   bhat (snd (LinearModel_fit t_cdf_2df intercept_named_model intercept_named_data))
     = Some [(''Intercept'', 1)] \<and>
   fitted (snd (LinearModel_fit t_cdf_2df intercept_named_model intercept_named_data))
     = Some [1, 1, 1] \<and>
   explicit_intercept_ols \<lparr>nrows = 3, cols = [(''Intercept'', [1, 2, 3])]\<rparr> [1, 3, 2]
     = Some [1 / 2, 1] \<and>
   mat_vec (rows (with_intercept_column \<lparr>nrows = 3, cols = [(''Intercept'', [1, 2, 3])]\<rparr>))
     [1 / 2, 1] = [3 / 2, 2, 5 / 2]"
proof -
  have e: "explicit_intercept_ols \<lparr>nrows = 3, cols = [(''Intercept'', [1, 2, 3])]\<rparr> [1, 3, 2]
             = Some [1 / 2, 1]"
    by (simp add: explicit_intercept_ols_def with_intercept_column_def columns_def gram_def
          xty_def solve_def eliminate_def dot_def Let_def numeral_eq_Suc)
  have f: "LinearModel_fit t_cdf_2df intercept_named_model intercept_named_data =
     (Inr ([(''Intercept'', 1)],
           [(''Intercept'', sqrt (5 / 6))],
           [(''Intercept'', 1 / sqrt (5 / 6))],
           [(''Intercept'', 2 * t_cdf_2df (- (1 / sqrt (5 / 6))) 2)]),
      \<lparr>intercept = True, given_ex = column_expr ''Intercept'', given_re = column_expr ''y'',
       ex = Some (column_expr ''Intercept'' intercept_named_data),
       re = Some (column_expr ''y'' intercept_named_data),
       bhat = Some [(''Intercept'', 1)],
       fitted = Some [1, 1, 1],
       residuals = Some [0, 2, 1],
       std_err_est = Some (sqrt (5 / 2)),
       std_err_vars = Some [(''Intercept'', sqrt (5 / 6))],
       var = Some \<lparr>nrows = 1, cols = [(''Intercept'', [5 / 6])]\<rparr>,
       t_vals = Some [(''Intercept'', 1 / sqrt (5 / 6))],
       p_vals = Some [(''Intercept'', 2 * t_cdf_2df (- (1 / sqrt (5 / 6))) 2)],
       training_data = Some intercept_named_data,
       training_x = Some \<lparr>nrows = 3, cols = [(''Intercept'', [1, 2, 3])]\<rparr>,
       training_x_means = Some [(''Intercept'', 2)],
       training_y = Some \<lparr>nrows = 3, cols = [(''y'', [1, 3, 2])]\<rparr>,
       training_y_mean = Some [(''y'', 2)],
       categorical_levels = Map.empty\<rparr>)"
    unfolding intercept_named_model_def intercept_named_data_def
    by (simp add: fit_defs upt_rec numeral_eq_Suc)
  show ?thesis
    unfolding f e
    by (simp add: with_intercept_column_def rows_def mat_vec_def columns_def dot_def upt_rec
          numeral_eq_Suc)
qed
section \<open>The interval widths\<close>

text \<open>The closed-form quantile functions invert the closed-form distribution functions.\<close>

lemma t_quantile_inverse:
  assumes "0 < q" and "q < 1"
  shows "t_cdf_2df (t_ppf_2df q df) df = q"
proof -
  define d where "d = 2 * q * (1 - q)"
  have d: "0 < d" using assms by (simp add: d_def)
  have t: "t_ppf_2df q df = (2 * q - 1) / sqrt d"
    by (simp add: t_ppf_2df_def d_def)
  have "(2 * q - 1)\<^sup>2 + 2 * d = 1"
    by (simp add: d_def power2_eq_square algebra_simps)
  then have "(2 * q - 1)\<^sup>2 / d + 2 = 1 / d"
    using d by (simp add: field_simps)
  moreover have "(t_ppf_2df q df)\<^sup>2 = (2 * q - 1)\<^sup>2 / d"
    using d by (simp add: t power_divide)
  ultimately have "sqrt ((t_ppf_2df q df)\<^sup>2 + 2) = 1 / sqrt d"
    by (simp add: real_sqrt_divide)
  then have "t_cdf_2df (t_ppf_2df q df) df = 1 / 2 + ((2 * q - 1) / sqrt d) / (2 * (1 / sqrt d))"
    by (simp add: t_cdf_2df_def t)
  also have "\<dots> = q"
    using d by (simp add: field_simps)
  finally show ?thesis .
qed

lemma f_quantile_inverse:
  assumes "0 < q" and "q < 1"
  shows "f_cdf_2_2df (f_ppf_2_2df q dfn dfd) dfn dfd = q"
proof -
  have "1 + q / (1 - q) = 1 / (1 - q)"
    using assms by (simp add: field_simps)
  then show ?thesis
    using assms by (simp add: f_cdf_2_2df_def f_ppf_2_2df_def)
qed

lemma small_widths_order:
  "t_ppf_2df (39 / 40) 2 * sqrt (153 / 100) < sqrt (2 * f_ppf_2_2df (39 / 40) 2 2) * sqrt (63 / 100)"
proof -
  have t: "t_ppf_2df (39 / 40) 2 = (19 / 20) / sqrt (39 / 800)"
    by (simp add: t_ppf_2df_def)
  have f: "f_ppf_2_2df (39 / 40) 2 2 = 39"
    by (simp add: f_ppf_2_2df_def)
  have "(t_ppf_2df (39 / 40) 2 * sqrt (153 / 100))\<^sup>2 = ((19 / 20)\<^sup>2 / (39 / 800)) * (153 / 100)"
    unfolding t by (simp add: power_mult_distrib power_divide)
  also have "\<dots> < 78 * (63 / 100)"
    by (simp add: power2_eq_square)
  also have "\<dots> = (sqrt (2 * f_ppf_2_2df (39 / 40) 2 2) * sqrt (63 / 100))\<^sup>2"
    unfolding f by (simp add: power_mult_distrib)
  finally have "(t_ppf_2df (39 / 40) 2 * sqrt (153 / 100))\<^sup>2
                < (sqrt (2 * f_ppf_2_2df (39 / 40) 2 2) * sqrt (63 / 100))\<^sup>2" .
  moreover have "0 \<le> sqrt (2 * f_ppf_2_2df (39 / 40) 2 2) * sqrt (63 / 100)"
    unfolding f by simp
  ultimately show ?thesis by (rule power2_less_imp_less)
qed

lemma get_sse_nonneg: "get_sse self = Inr sse \<Longrightarrow> 0 \<le> sse"
  by (auto simp: get_sse_def split: option.splits list.splits intro!: sum_list_nonneg)

lemma small_prediction_width:
  "prediction_interval_width t_ppf_2df small_fitted new_point (5 / 100)
     = Inr [t_ppf_2df (39 / 40) 2 * sqrt (153 / 100)]"
  unfolding small_fitted_def small_fit new_point_def
  by (simp add: prediction_interval_width_def get_sse_def quadratic_forms_def aligned_def
        labels_def columns_def column_of_def dot_def Let_def power2_eq_square)

lemma small_confidence_width:
  "confidence_interval_width f_ppf_2_2df small_fitted new_point (5 / 100)
     = Inr [sqrt (2 * f_ppf_2_2df (39 / 40) 2 2) * sqrt (63 / 100)]"
  unfolding small_fitted_def small_fit new_point_def
  by (simp add: confidence_interval_width_def quadratic_forms_def aligned_def
        labels_def columns_def column_of_def dot_def Let_def power2_eq_square)

text \<open>
  C7. The claim: at every point the prediction-interval half-width is at least the
  confidence-band half-width. The two widths share the quadratic form
  \<open>s = x\<^sup>T Var(\<beta>) x\<close> but not the critical value: the prediction width is
  \<open>t_crit * sqrt (MSE + s)\<close>, the band width \<open>sqrt (p * F_crit) * sqrt s\<close> (the
  Working-Hotelling band). What holds is the order of the standard errors,
  \<open>sqrt s \<le> sqrt (MSE + s)\<close>: whenever both widths are computed, \<open>n > p\<close> and the
  two critical values are not negative, the band width times \<open>t_crit\<close> is at most
  the prediction width times \<open>sqrt (p * F_crit)\<close>.
\<close>

theorem prediction_width_against_confidence_width:
  assumes "prediction_interval_width t_ppf self X_new alpha = Inr wp"
    and "confidence_interval_width f_ppf self X_new alpha = Inr wc"
    and "training_x self = Some tx"
    and "length (cols X_new) < nrows tx"
    and "0 \<le> t_ppf (1 - alpha / 2) (int (nrows tx) - int (length (cols X_new)))"
    and "0 \<le> f_ppf (1 - alpha / 2) (int (length (cols X_new)))
               (int (nrows tx) - int (length (cols X_new)))"
  shows "length wp = length wc \<and>
         (\<forall>i < length wp.
            wc ! i * t_ppf (1 - alpha / 2) (int (nrows tx) - int (length (cols X_new)))
            \<le> wp ! i * sqrt (real_of_int (int (length (cols X_new)))
                          * f_ppf (1 - alpha / 2) (int (length (cols X_new)))
                              (int (nrows tx) - int (length (cols X_new)))))"
proof -
  let ?n = "int (nrows tx)" and ?p = "int (length (cols X_new))"
  let ?t = "t_ppf (1 - alpha / 2) (?n - ?p)"
  let ?W = "sqrt (real_of_int ?p * f_ppf (1 - alpha / 2) ?p (?n - ?p))"
  from assms(1,3) obtain sse V s where
    sse: "get_sse self = Inr sse" and V: "var self = Some V"
    and s: "quadratic_forms X_new V = Inr s"
    and wp: "wp = map (\<lambda>v. ?t * sqrt (sse / real_of_int (?n - ?p) + v)) s"
    by (auto simp: prediction_interval_width_def Let_def split: sum.splits option.splits)
  from assms(2,3) V s have wc: "wc = map (\<lambda>v. ?W * sqrt v) s"
    by (auto simp: confidence_interval_width_def Let_def)
  have mse: "0 \<le> sse / real_of_int (?n - ?p)"
    using get_sse_nonneg [OF sse] assms(4) by simp
  have "wc ! i * ?t \<le> wp ! i * ?W" if "i < length s" for i
  proof -
    have le: "sqrt (s ! i) \<le> sqrt (sse / real_of_int (?n - ?p) + s ! i)"
      using mse by simp
    have tw: "0 \<le> ?t * ?W"
      using assms(5,6) by simp
    from le tw have "sqrt (s ! i) * (?t * ?W)
                     \<le> sqrt (sse / real_of_int (?n - ?p) + s ! i) * (?t * ?W)"
      by (rule mult_right_mono)
    then have "?W * sqrt (s ! i) * ?t \<le> ?t * sqrt (sse / real_of_int (?n - ?p) + s ! i) * ?W"
      by (simp only: mult_ac)
    then show ?thesis using that by (simp add: wp wc)
  qed
  then show ?thesis by (simp add: wp wc)
qed

theorem prediction_width_against_confidence_width_witness:
  "length [t_ppf_2df (39 / 40) 2 * sqrt (153 / 100)]
     = length [sqrt (2 * f_ppf_2_2df (39 / 40) 2 2) * sqrt (63 / 100)] \<and>
   sqrt (2 * f_ppf_2_2df (39 / 40) 2 2) * sqrt (63 / 100) * t_ppf_2df (39 / 40) 2
     \<le> t_ppf_2df (39 / 40) 2 * sqrt (153 / 100) * sqrt (2 * f_ppf_2_2df (39 / 40) 2 2)"
proof -
  have h3: "training_x small_fitted = Some \<lparr>nrows = 4, cols = [(''x'', [1, 2, 3, 4])]\<rparr>"
    unfolding small_fitted_def small_fit by simp
  have h4: "length (cols new_point) < nrows \<lparr>nrows = 4, cols = [(''x'', [1, 2, 3, 4 :: real])]\<rparr>"
    by (simp add: new_point_def)
  have h5: "0 \<le> t_ppf_2df (1 - (5 / 100) / 2)
              (int (nrows \<lparr>nrows = 4, cols = [(''x'', [1, 2, 3, 4 :: real])]\<rparr>)
               - int (length (cols new_point)))"
    by (simp add: t_ppf_2df_def)
  have h6: "0 \<le> f_ppf_2_2df (1 - (5 / 100) / 2) (int (length (cols new_point)))
              (int (nrows \<lparr>nrows = 4, cols = [(''x'', [1, 2, 3, 4 :: real])]\<rparr>)
               - int (length (cols new_point)))"
    by (simp add: f_ppf_2_2df_def)
  from prediction_width_against_confidence_width
         [OF small_prediction_width small_confidence_width h3 h4 h5 h6]
  show ?thesis by (simp add: new_point_def)
qed

text \<open>
  The claim as stated fails on the model fitted to \<open>small_data\<close> (\<open>n = 4\<close>,
  \<open>p = 2\<close>, two degrees of freedom) at the new point \<open>x = 1\<close> with
  \<open>alpha = 0.05\<close>: the prediction half-width is about \<open>5.32\<close>, the band
  half-width about \<open>7.01\<close>.
\<close>

theorem confidence_band_wider_than_prediction_interval:
  "prediction_interval_width t_ppf_2df small_fitted new_point (5 / 100)
     = Inr [t_ppf_2df (39 / 40) 2 * sqrt (153 / 100)] \<and>
   confidence_interval_width f_ppf_2_2df small_fitted new_point (5 / 100)
     = Inr [sqrt (2 * f_ppf_2_2df (39 / 40) 2 2) * sqrt (63 / 100)] \<and>
   t_ppf_2df (39 / 40) 2 * sqrt (153 / 100)
     < sqrt (2 * f_ppf_2_2df (39 / 40) 2 2) * sqrt (63 / 100)"
  using small_prediction_width small_confidence_width small_widths_order by blast

section \<open>Encoding categorical terms\<close>

lemma set_unique [simp]: "set (unique xs) = set xs"
  by (induction xs) auto

lemma distinct_unique [simp]: "distinct (unique xs)"
  by (induction xs) auto

lemma unique_distinct: "distinct xs \<Longrightarrow> unique xs = xs"
  by (induction xs) (auto simp: filter_id_conv)

lemma remove_absent_append:
  "\<forall>f \<in> set F. f \<in> set D \<Longrightarrow>
   remove_absent xs D (F @ xs) = F @ filter (\<lambda>l. l \<in> set D) xs"
proof (induction xs arbitrary: F)
  case Nil
  then show ?case by simp
next
  case (Cons x xs)
  show ?case
  proof (cases "x \<in> set D")
    case True
    with Cons.prems have "\<forall>f \<in> set (F @ [x]). f \<in> set D" by simp
    from Cons.IH [OF this] True show ?thesis by simp
  next
    case False
    with Cons.prems have "x \<notin> set F" by blast
    then have "remove1 x (F @ x # xs) = F @ xs" by (simp add: remove1_append)
    with Cons.IH [OF Cons.prems] False show ?thesis by simp
  qed
qed

lemma remove_absent_filter:
  "remove_absent lv D lv = filter (\<lambda>l. l \<in> set D) lv"
  using remove_absent_append [of "[]" D lv] by simp

lemma add_other_eq:
  "add_other D lv =
     (if \<exists>v \<in> set D. v \<notin> set lv then (lv @ [''~other~''], True) else (lv, False))"
  by (induction D) auto

text \<open>The dictionary of the indicator columns: one item for every level, in the order of first appearance.\<close>

lemma set_label_present:
  assumes "inj f" and "x \<in> set A"
  shows "set_label (map (\<lambda>l. (f l, g l)) A) (f x) (g x) = map (\<lambda>l. (f l, g l)) A"
proof -
  have "map (\<lambda>(k, w). if k = f x then (k, g x) else (k, w)) (map (\<lambda>l. (f l, g l)) A)
        = map (\<lambda>l. (f l, g l)) A"
    using assms(1) by (induction A) (auto dest: injD)
  then show ?thesis using assms(2) by (simp add: set_label_def)
qed

lemma set_label_absent:
  assumes "inj f" and "x \<notin> set A"
  shows "set_label (map (\<lambda>l. (f l, g l)) A) (f x) v = map (\<lambda>l. (f l, g l)) A @ [(f x, v)]"
  using assms by (auto simp: set_label_def dest: injD)

lemma dict_of_map:
  assumes "inj f"
  shows "dict_of (map (\<lambda>l. (f l, g l)) A) (map (\<lambda>l. (f l, g l)) ls)
         = map (\<lambda>l. (f l, g l)) (A @ filter (\<lambda>l. l \<notin> set A) (unique ls))"
proof (induction ls arbitrary: A)
  case Nil
  then show ?case by simp
next
  case (Cons x ls)
  show ?case
  proof (cases "x \<in> set A")
    case True
    have "filter (\<lambda>l. l \<notin> set A) (filter (\<lambda>y. y \<noteq> x) (unique ls))
          = filter (\<lambda>l. l \<notin> set A) (unique ls)"
      using True by (auto intro: filter_cong)
    with True Cons.IH [of A] show ?thesis
      by (simp add: set_label_present [OF assms])
  next
    case False
    have "filter (\<lambda>l. l \<notin> set (A @ [x])) (unique ls)
          = filter (\<lambda>l. l \<notin> set A) (filter (\<lambda>y. y \<noteq> x) (unique ls))"
      by (auto intro: filter_cong)
    with False Cons.IH [of "A @ [x]"] show ?thesis
      using set_label_absent [OF assms False, of g "g x"] by simp
  qed
qed

lemma dict_of_indicators:
  "inj f \<Longrightarrow> dict_of [] (map (\<lambda>l. (f l, g l)) ls) = map (\<lambda>l. (f l, g l)) (unique ls)"
  using dict_of_map [of f g "[]" ls] by simp

lemma inj_label: "inj (\<lambda>level. nm @ ''::'' @ level)"
  by (rule injI) simp

lemma map_of_labelled:
  "inj f \<Longrightarrow> l \<in> set ls \<Longrightarrow> map_of (map (\<lambda>l. (f l, g l)) ls @ rest) (f l) = Some (g l)"
  by (induction ls) (auto dest: injD)

lemma map_of_labelled_absent:
  "inj f \<Longrightarrow> l \<notin> set ls \<Longrightarrow> map_of (map (\<lambda>l. (f l, g l)) ls @ rest) (f l) = map_of rest (f l)"
  by (induction ls) (auto dest: injD)

lemma sum_list_indicator:
  "distinct ls \<Longrightarrow>
   sum_list (map (\<lambda>l. if v = l then 1 else 0) ls) = (if v \<in> set ls then 1 else (0::real))"
  by (induction ls) auto


lemma map_index_column:
  "map (\<lambda>i. F (column ! i)) [0..<length column] = map F column"
  by (rule nth_equalityI) simp_all

lemma is_zero_row_sums_indicators:
  assumes "distinct U"
  shows "is_zero (row_sums \<lparr>nrows = length column,
                            cols = map (\<lambda>l. (f l, indicator column l)) U\<rparr>)
         = map (\<lambda>v. if v \<in> set U then 0 else 1) column"
proof -
  have "sum_list (map (\<lambda>c. c ! i) (map (indicator column) U))
        = (if column ! i \<in> set U then 1 else 0)" if "i < length column" for i
  proof -
    have e: "map (\<lambda>c. c ! i) (map (indicator column) U)
          = map (\<lambda>l. if column ! i = l then 1 else 0) U"
      using that by (simp add: indicator_def)
    show ?thesis by (simp only: e sum_list_indicator [OF assms])
  qed
  then have "row_sums \<lparr>nrows = length column, cols = map (\<lambda>l. (f l, indicator column l)) U\<rparr>
             = map (\<lambda>i. if column ! i \<in> set U then 1 else 0) [0..<length column]"
    by (simp add: row_sums_def rows_def columns_def comp_def)
  then show ?thesis
    by (simp add: is_zero_def comp_def map_index_column [of "\<lambda>v. if v \<in> set U then 0 else 1"]
          if_distrib [of "\<lambda>s. if s = 0 then 1 else 0"] cong: if_cong)
qed

lemma select_one_hot:
  assumes "inj f"
  shows "select (frame_of_dict n (dict_of [] (map (\<lambda>l. (f l, g l)) (lv :: string list)))) (map f lv)
         = Inr \<lparr>nrows = (if lv = [] then 0 else n), cols = map (\<lambda>l. (f l, g l)) lv\<rparr>"
proof (cases "lv = []")
  case True
  then show ?thesis by (simp add: frame_of_dict_def select_def labels_def)
next
  case False
  then have ne: "unique lv \<noteq> []" by (cases lv) simp_all
  let ?F = "\<lparr>nrows = n, cols = map (\<lambda>l. (f l, g l)) (unique lv)\<rparr>"
  have F: "frame_of_dict n (dict_of [] (map (\<lambda>l. (f l, g l)) lv)) = ?F"
    using ne by (simp add: frame_of_dict_def dict_of_indicators [OF assms])
  have sub: "set (map f lv) \<subseteq> set (labels ?F)"
    by (auto simp: labels_def)
  have col: "column_of ?F (f l) = g l" if "l \<in> set lv" for l
    using map_of_labelled [OF assms, of l "unique lv" g "[]"] that by (simp add: column_of_def)
  have "map (\<lambda>k. (k, column_of ?F k)) (map f lv) = map (\<lambda>l. (f l, g l)) lv"
    using col by simp
  with sub False show ?thesis unfolding F by (simp add: select_def)
qed

lemma select_one_hot_other:
  assumes "inj f" and "kept \<noteq> []" and "other \<notin> set kept"
  shows "select (set_column (frame_of_dict (length column)
                    (dict_of [] (map (\<lambda>l. (f l, indicator column l)) kept)))
                  (f other)
                  (is_zero (row_sums (frame_of_dict (length column)
                    (dict_of [] (map (\<lambda>l. (f l, indicator column l)) kept))))))
                (map f (kept @ [other]))
         = Inr \<lparr>nrows = length column,
                cols = map (\<lambda>l. (f l, indicator column l)) kept
                       @ [(f other, map (\<lambda>v. if v \<in> set kept then 0 else 1) column)]\<rparr>"
proof -
  let ?g = "indicator column"
  let ?oc = "map (\<lambda>v. if v \<in> set kept then 0 else 1 :: real) column"
  from assms(2) have ne: "unique kept \<noteq> []" by (cases kept) simp_all
  let ?F0 = "\<lparr>nrows = length column, cols = map (\<lambda>l. (f l, ?g l)) (unique kept)\<rparr>"
  have F0: "frame_of_dict (length column) (dict_of [] (map (\<lambda>l. (f l, ?g l)) kept)) = ?F0"
    using ne by (simp add: frame_of_dict_def dict_of_indicators [OF assms(1)])
  have oc: "is_zero (row_sums ?F0) = ?oc"
    using is_zero_row_sums_indicators [of "unique kept" column f] by simp
  let ?F1 = "\<lparr>nrows = length column,
               cols = map (\<lambda>l. (f l, ?g l)) (unique kept) @ [(f other, ?oc)]\<rparr>"
  have "other \<notin> set (unique kept)" using assms(3) by simp
  then have F1: "set_column ?F0 (f other) ?oc = ?F1"
    using set_label_absent [OF assms(1), of other "unique kept" ?g ?oc]
    by (simp add: set_column_def)
  have sub: "set (map f (kept @ [other])) \<subseteq> set (labels ?F1)"
    by (auto simp: labels_def)
  have col: "column_of ?F1 (f l) = ?g l" if "l \<in> set kept" for l
    using map_of_labelled [OF assms(1), of l "unique kept" ?g "[(f other, ?oc)]"] that
    by (simp add: column_of_def)
  have colo: "column_of ?F1 (f other) = ?oc"
    using map_of_labelled_absent [OF assms(1) \<open>other \<notin> set (unique kept)\<close>, of ?g "[(f other, ?oc)]"]
    by (simp add: column_of_def)
  have "map (\<lambda>k. (k, column_of ?F1 k)) (map f (kept @ [other]))
        = map (\<lambda>l. (f l, ?g l)) kept @ [(f other, ?oc)]"
    using col colo by simp
  with sub show ?thesis unfolding F0 oc F1 by (simp add: select_def)
qed

lemma resolve_levels_registry:
  "categorical_levels self (name expr) = Some b \<Longrightarrow>
   resolve_levels self h expr column = (False, b, h)"
  by (simp add: resolve_levels_def)

lemma resolve_levels_sorted:
  "categorical_levels self (name expr) = None \<Longrightarrow> levels expr = None \<Longrightarrow>
   resolve_levels self h expr column = (False, length h, h @ [sort (unique column)])"
  by (simp add: resolve_levels_def alloc_def)

lemma resolve_levels_explicit:
  assumes "categorical_levels self (name expr) = None" and "levels expr = Some a"
  shows "resolve_levels self h expr column =
           (\<exists>v \<in> set column. v \<notin> set (h ! a), a,
            h[a := filter (\<lambda>l. l \<in> set column) (h ! a)
                    @ (if \<exists>v \<in> set column. v \<notin> set (h ! a) then [''~other~''] else [])])"
proof -
  have "(\<exists>v \<in> set (unique column). v \<notin> set (filter (\<lambda>l. l \<in> set column) (h ! a)))
        \<longleftrightarrow> (\<exists>v \<in> set column. v \<notin> set (h ! a))"
    by auto
  then show ?thesis
    using assms by (simp add: resolve_levels_def Let_def remove_absent_filter add_other_eq)
qed

lemma sorted_levels_distinct: "distinct (sort (unique column))"
  by simp

lemma drop_first_label:
  assumes "inj f" and "distinct (l0 # ls)"
  shows "filter (\<lambda>(k, c). k \<noteq> f l0) (map (\<lambda>l. (f l, g l)) (l0 # ls)) = map (\<lambda>l. (f l, g l)) ls"
proof -
  have "filter (\<lambda>(k, c). k \<noteq> f l0) (map (\<lambda>l. (f l, g l)) ls) = map (\<lambda>l. (f l, g l)) ls"
    using assms by (auto simp: filter_id_conv dest: injD)
  then show ?thesis by simp
qed

text \<open>
  C5. For a categorical term with no entry in the registry and no explicit level list,
  on a data column \<open>column\<close>: the levels are the sorted unique values of the column;
  with \<open>drop_dummy\<close> unset the result is one indicator column per level, in that order;
  with it set (and a column that is not empty) it is the same frame without the first
  level's column; in that frame every row sums to at most \<open>1\<close>, and a row whose value
  is the first level has \<open>0\<close> in every column. The level list is a new sequence, which
  the registry holds under \<open>str(expr)\<close> when \<open>update_levels\<close> is set.
\<close>

theorem sorted_levels_one_hot_encoding:
  assumes "categorical_levels self (name expr) = None"
    and "levels expr = None"
    and "method_name expr = ''one-hot''"
    and "map_of data (name expr) = Some column"
  shows "extract_columns_Categorical str_of self h expr data False update_levels =
           (Inr (Some \<lparr>nrows = length column,
                        cols = map (\<lambda>l. (name expr @ ''::'' @ l, indicator column l))
                                 (sort (unique column))\<rparr>),
            (if update_levels
             then self\<lparr>categorical_levels := (categorical_levels self)(str_of expr \<mapsto> length h)\<rparr>
             else self),
            h @ [sort (unique column)]) \<and>
         (column \<noteq> [] \<longrightarrow>
          extract_columns_Categorical str_of self h expr data True update_levels =
           (Inr (Some \<lparr>nrows = length column,
                        cols = map (\<lambda>l. (name expr @ ''::'' @ l, indicator column l))
                                 (tl (sort (unique column)))\<rparr>),
            (if update_levels
             then self\<lparr>categorical_levels := (categorical_levels self)(str_of expr \<mapsto> length h)\<rparr>
             else self),
            h @ [sort (unique column)])) \<and>
         (\<forall>i < length column.
            sum_list (map (\<lambda>l. indicator column l ! i) (tl (sort (unique column)))) \<le> 1 \<and>
            (column ! i = hd (sort (unique column)) \<longrightarrow>
             (\<forall>l \<in> set (tl (sort (unique column))). indicator column l ! i = 0)))"
proof -
  let ?lv = "sort (unique column)"
  let ?f = "\<lambda>l. name expr @ ''::'' @ l"
  let ?h = "\<lambda>l. (?f l, indicator column l)"
  note inj = inj_label [of "name expr"]
  have d: "distinct ?lv" by simp
  have e: "?lv = [] \<longleftrightarrow> column = []"
    by (metis set_empty set_sort set_unique)
  have sel: "select (frame_of_dict (length column) (dict_of [] (map ?h ?lv))) (map ?f ?lv)
             = Inr \<lparr>nrows = length column, cols = map ?h ?lv\<rparr>"
    using select_one_hot [OF inj, of "length column" "indicator column" ?lv] e by auto
  have a: "extract_columns_Categorical str_of self h expr data False update_levels =
           (Inr (Some \<lparr>nrows = length column, cols = map ?h ?lv\<rparr>),
            (if update_levels
             then self\<lparr>categorical_levels := (categorical_levels self)(str_of expr \<mapsto> length h)\<rparr>
             else self),
            h @ [?lv])"
    using assms sel
    by (simp add: extract_columns_Categorical_def resolve_levels_sorted Let_def)
  have b: "extract_columns_Categorical str_of self h expr data True update_levels =
           (Inr (Some \<lparr>nrows = length column, cols = map ?h (tl ?lv)\<rparr>),
            (if update_levels
             then self\<lparr>categorical_levels := (categorical_levels self)(str_of expr \<mapsto> length h)\<rparr>
             else self),
            h @ [?lv])" if ne: "column \<noteq> []"
  proof -
    from ne e obtain l0 ls where lv: "?lv = l0 # ls" by (cases ?lv) auto
    with d have dl: "distinct (l0 # ls)" by simp
    have "drop_column \<lparr>nrows = length column, cols = map ?h (l0 # ls)\<rparr> (?f l0)
          = Inr \<lparr>nrows = length column, cols = map ?h ls\<rparr>"
      using drop_first_label [OF inj dl, of "indicator column"]
      by (simp add: drop_column_def labels_def)
    with assms sel lv show ?thesis
      by (simp add: extract_columns_Categorical_def resolve_levels_sorted Let_def)
  qed
  have c: "sum_list (map (\<lambda>l. indicator column l ! i) (tl ?lv)) \<le> 1 \<and>
           (column ! i = hd ?lv \<longrightarrow> (\<forall>l \<in> set (tl ?lv). indicator column l ! i = 0))"
    if i: "i < length column" for i
  proof -
    have ind: "indicator column l ! i = (if column ! i = l then 1 else 0)" for l
      using i by (simp add: indicator_def)
    have dt: "distinct (tl ?lv)" using d by (simp add: distinct_tl)
    have "sum_list (map (\<lambda>l. indicator column l ! i) (tl ?lv))
          = (if column ! i \<in> set (tl ?lv) then 1 else 0)"
      by (simp only: ind sum_list_indicator [OF dt])
    moreover have "hd ?lv \<notin> set (tl ?lv)"
      using d by (cases ?lv) auto
    ultimately show ?thesis by (auto simp: ind)
  qed
  from a b c show ?thesis by blast
qed

lemma abc_levels: "sort (unique [''B'', ''A'', ''C'', ''A'']) = [''A'', ''B'', ''C'']"
  by (simp add: less_eq_char_def less_char_def)

lemma abc_column: "map_of abc_data (name (term_c lv)) = Some [''B'', ''A'', ''C'', ''A'']"
  by (simp add: abc_data_def term_c_def)

lemma example_model_registry: "categorical_levels example_model k = None"
  by (simp add: example_model_def LinearModel_def)

theorem sorted_levels_one_hot_encoding_witness:
  "extract_columns_Categorical name example_model [] (term_c None) abc_data False True =
     (Inr (Some \<lparr>nrows = 4,
                  cols = [(''c::A'', [0, 1, 0, 1]), (''c::B'', [1, 0, 0, 0]),
                          (''c::C'', [0, 0, 1, 0])]\<rparr>),
      example_model\<lparr>categorical_levels := [''c'' \<mapsto> 0]\<rparr>,
      [[''A'', ''B'', ''C'']]) \<and>
   extract_columns_Categorical name example_model [] (term_c None) abc_data True True =
     (Inr (Some \<lparr>nrows = 4,
                  cols = [(''c::B'', [1, 0, 0, 0]), (''c::C'', [0, 0, 1, 0])]\<rparr>),
      example_model\<lparr>categorical_levels := [''c'' \<mapsto> 0]\<rparr>,
      [[''A'', ''B'', ''C'']]) \<and>
   row_sums \<lparr>nrows = 4, cols = [(''c::B'', [1, 0, 0, 0]), (''c::C'', [0, 0, 1, 0])]\<rparr>
     = [1, 0, 1, 0] \<and>
   rows \<lparr>nrows = 4, cols = [(''c::B'', [1, 0, 0, 0]), (''c::C'', [0, 0, 1, 0])]\<rparr>
     = [[1, 0], [0, 0], [0, 1], [0, 0]]"
proof -
  have h2: "levels (term_c None) = None" by (simp add: term_c_def)
  have h3: "method_name (term_c None) = ''one-hot''" by (simp add: term_c_def)
  have r: "row_sums \<lparr>nrows = 4, cols = [(''c::B'', [1, 0, 0, 0]), (''c::C'', [0, 0, 1, 0])]\<rparr>
             = [1, 0, 1, 0]"
    by (simp add: row_sums_def rows_def columns_def upt_rec numeral_eq_Suc)
  have q: "rows \<lparr>nrows = 4, cols = [(''c::B'', [1, 0, 0, 0]), (''c::C'', [0, 0, 1, 0])]\<rparr>
             = [[1, 0], [0, 0], [0, 1], [0, 0]]"
    by (simp add: rows_def columns_def upt_rec numeral_eq_Suc)
  from sorted_levels_one_hot_encoding
         [OF example_model_registry h2 h3 abc_column, of name "[]" True]
  show ?thesis
    unfolding abc_levels using r q
    by (simp add: term_c_def indicator_def example_model_def LinearModel_def)
qed

text \<open>
  C6. For a categorical term with an explicit level list \<open>h ! a\<close> and no entry for its
  name in the registry, where at least one listed level occurs in the data and the list
  does not itself name \<open>~other~\<close>: the listed levels absent from the data are removed
  from the list and get no column; when the data holds a level that is not listed, the
  list ends in \<open>~other~\<close> and the frame in one more column \<open>name::~other~\<close>, which
  is \<open>1\<close> exactly in the rows whose value is not listed; with \<open>drop_dummy\<close> set the
  columns of the first remaining level are left out.
\<close>

theorem explicit_levels_one_hot_encoding:
  assumes "categorical_levels self (name expr) = None"
    and "levels expr = Some a" and "a < length h"
    and "method_name expr = ''one-hot''"
    and "map_of data (name expr) = Some column"
    and "\<exists>l \<in> set (h ! a). l \<in> set column"
    and "''~other~'' \<notin> set (h ! a)"
  shows "extract_columns_Categorical str_of self h expr data drop_dummy update_levels =
           (Inr (Some \<lparr>nrows = length column,
                  cols = filter (\<lambda>(k, c). drop_dummy \<longrightarrow>
                                   k \<noteq> name expr @ ''::'' @ hd (filter (\<lambda>l. l \<in> set column) (h ! a)))
                          (map (\<lambda>l. (name expr @ ''::'' @ l, indicator column l))
                               (filter (\<lambda>l. l \<in> set column) (h ! a))
                           @ (if \<exists>v \<in> set column. v \<notin> set (h ! a)
                              then [(name expr @ ''::~other~'',
                                     map (\<lambda>v. if v \<in> set (h ! a) then 0 else 1) column)]
                              else []))\<rparr>),
            (if update_levels
             then self\<lparr>categorical_levels := (categorical_levels self)(str_of expr \<mapsto> a)\<rparr>
             else self),
            h[a := filter (\<lambda>l. l \<in> set column) (h ! a)
                   @ (if \<exists>v \<in> set column. v \<notin> set (h ! a) then [''~other~''] else [])])"
proof -
  let ?kept = "filter (\<lambda>l. l \<in> set column) (h ! a)"
  let ?other = "\<exists>v \<in> set column. v \<notin> set (h ! a)"
  let ?f = "\<lambda>l. name expr @ ''::'' @ l"
  let ?h = "\<lambda>l. (?f l, indicator column l)"
  let ?oc = "map (\<lambda>v. if v \<in> set (h ! a) then 0 else 1 :: real) column"
  let ?self1 = "if update_levels
             then self\<lparr>categorical_levels := (categorical_levels self)(str_of expr \<mapsto> a)\<rparr>
             else self"
  note inj = inj_label [of "name expr"]
  note res = resolve_levels_explicit [OF assms(1,2), of h column]
  from assms(6) have ne: "?kept \<noteq> []"
    by (auto simp: filter_empty_conv)
  then obtain l0 ls where kept: "?kept = l0 # ls" by (cases ?kept) auto
  from assms(7) have no: "''~other~'' \<notin> set ?kept" by simp
  have oc: "map (\<lambda>v. if v \<in> set ?kept then 0 else 1 :: real) column = ?oc"
    by simp
  have fo: "?f ''~other~'' = name expr @ ''::~other~''" by simp
  show ?thesis
  proof (cases ?other)
    case True
    let ?full = "map ?h ?kept @ [(name expr @ ''::~other~'', ?oc)]"
    have sel: "select (set_column (frame_of_dict (length column) (dict_of [] (map ?h ?kept)))
                        (name expr @ ''::~other~'')
                        (is_zero (row_sums (frame_of_dict (length column)
                                     (dict_of [] (map ?h ?kept))))))
                 (map ?f (?kept @ [''~other~'']))
               = Inr \<lparr>nrows = length column, cols = ?full\<rparr>"
      using select_one_hot_other [OF inj ne no, of column] unfolding oc fo .
    have drp: "drop_column \<lparr>nrows = length column, cols = ?full\<rparr> (?f l0)
               = Inr \<lparr>nrows = length column, cols = filter (\<lambda>(k, c). k \<noteq> ?f l0) ?full\<rparr>"
      using kept by (simp add: drop_column_def labels_def)
    show ?thesis
    proof (cases drop_dummy)
      case dd: True
      show ?thesis
        using assms(3,4,5) True dd sel drp kept
        by (simp add: extract_columns_Categorical_def res Let_def del: filter.simps filter_append)
    next
      case dd: False
      show ?thesis
        using assms(3,4,5) True dd sel
        by (simp add: extract_columns_Categorical_def res Let_def del: filter.simps filter_append)
    qed
  next
    case False
    let ?full = "map ?h ?kept"
    have sel: "select (frame_of_dict (length column) (dict_of [] (map ?h ?kept))) (map ?f ?kept)
               = Inr \<lparr>nrows = length column, cols = ?full\<rparr>"
      using select_one_hot [OF inj, of "length column" "indicator column" ?kept] ne by simp
    have drp: "drop_column \<lparr>nrows = length column, cols = ?full\<rparr> (?f l0)
               = Inr \<lparr>nrows = length column, cols = filter (\<lambda>(k, c). k \<noteq> ?f l0) ?full\<rparr>"
      using kept by (simp add: drop_column_def labels_def)
    show ?thesis
    proof (cases drop_dummy)
      case dd: True
      show ?thesis
        using assms(3,4,5) False dd sel drp kept
        by (simp add: extract_columns_Categorical_def res Let_def del: filter.simps filter_append)
    next
      case dd: False
      show ?thesis
        using assms(3,4,5) False dd sel
        by (simp add: extract_columns_Categorical_def res Let_def del: filter.simps filter_append)
    qed
  qed
qed

theorem explicit_levels_one_hot_encoding_witness:
  "extract_columns_Categorical name example_model abx_heap (term_c (Some 0)) abc_data False True =
     (Inr (Some \<lparr>nrows = 4,
                  cols = [(''c::A'', [0, 1, 0, 1]), (''c::B'', [1, 0, 0, 0]),
                          (''c::~other~'', [0, 0, 1, 0])]\<rparr>),
      example_model\<lparr>categorical_levels := [''c'' \<mapsto> 0]\<rparr>,
      [[''A'', ''B'', ''~other~'']])"
proof -
  have h2: "levels (term_c (Some 0)) = Some 0" by (simp add: term_c_def)
  have h3: "0 < length abx_heap" by (simp add: abx_heap_def)
  have h4: "method_name (term_c (Some 0)) = ''one-hot''" by (simp add: term_c_def)
  have h6: "\<exists>l \<in> set (abx_heap ! 0). l \<in> set [''B'', ''A'', ''C'', ''A'']"
    by (simp add: abx_heap_def)
  have h7: "''~other~'' \<notin> set (abx_heap ! 0)" by (simp add: abx_heap_def)
  from explicit_levels_one_hot_encoding
         [OF example_model_registry h2 h3 h4 abc_column h6 h7, of name False True]
  show ?thesis
    by (simp add: abx_heap_def term_c_def indicator_def example_model_def LinearModel_def)
qed

text \<open>
  The claim as stated, for every term with an explicit level list, fails where the
  registry already has an entry for the term's name: the levels are then those of the
  registry. The first call below is the encoding at fit time, on data with the levels
  \<open>A\<close> and \<open>B\<close>, of a term with the explicit list \<open>[A, B]\<close> and the display string
  \<open>c\<close>; the second call encodes the same term for a prediction on data that holds the
  level \<open>C\<close> as well, and returns no \<open>~other~\<close> column.
\<close>

theorem registry_entry_overrides_explicit_levels:
  "extract_columns_Categorical name example_model ab_heap (term_c (Some 0)) ab_data False True =
     (Inr (Some \<lparr>nrows = 3, cols = [(''c::A'', [1, 0, 1]), (''c::B'', [0, 1, 0])]\<rparr>),
      example_model\<lparr>categorical_levels := [''c'' \<mapsto> 0]\<rparr>,
      ab_heap) \<and>
   extract_columns_Categorical name (example_model\<lparr>categorical_levels := [''c'' \<mapsto> 0]\<rparr>)
       ab_heap (term_c (Some 0)) abc_data False False =
     (Inr (Some \<lparr>nrows = 4, cols = [(''c::A'', [0, 1, 0, 1]), (''c::B'', [1, 0, 0, 0])]\<rparr>),
      example_model\<lparr>categorical_levels := [''c'' \<mapsto> 0]\<rparr>,
      ab_heap)"
  by (simp add: extract_columns_Categorical_def resolve_levels_def frame_of_dict_def
        set_label_def indicator_def select_def column_of_def labels_def
        ab_heap_def ab_data_def abc_data_def term_c_def example_model_def LinearModel_def Let_def)

text \<open>
  The two cases the statement above leaves out. When no listed level occurs in the data,
  the frame of the listed levels is \<open>pd.DataFrame({})\<close>, which has no rows, and the
  \<open>~other~\<close> column computed from its row sums has none either. When the list names
  \<open>~other~\<close> itself and the data holds that value and an unlisted one, the catch-all
  column replaces the column of the listed level \<open>~other~\<close>, and the frame has two
  columns of that name.
\<close>

lemma no_listed_level_in_data:
  "extract_columns_Categorical name example_model [[''X'']] (term_c (Some 0)) ab_data False False =
     (Inr (Some \<lparr>nrows = 0, cols = [(''c::~other~'', [])]\<rparr>),
      example_model, [[''~other~'']])"
  by (simp add: extract_columns_Categorical_def resolve_levels_def frame_of_dict_def
        set_label_def indicator_def select_def column_of_def labels_def
        set_column_def row_sums_def rows_def columns_def is_zero_def
        ab_data_def term_c_def example_model_def LinearModel_def Let_def)

lemma listed_level_named_other:
  "extract_columns_Categorical name example_model [[''A'', ''~other~'']] (term_c (Some 0))
       [(''c'', [''A'', ''~other~'', ''C''])] False False =
     (Inr (Some \<lparr>nrows = 3,
                  cols = [(''c::A'', [1, 0, 0]), (''c::~other~'', [0, 0, 1]),
                          (''c::~other~'', [0, 0, 1])]\<rparr>),
      example_model, [[''A'', ''~other~'', ''~other~'']])"
  by (simp add: extract_columns_Categorical_def resolve_levels_def frame_of_dict_def
        set_label_def indicator_def select_def column_of_def labels_def
        set_column_def row_sums_def rows_def columns_def is_zero_def
        term_c_def example_model_def LinearModel_def Let_def upt_rec numeral_eq_Suc)

lemma extract_columns_state:
  assumes "map_of data (name expr) = Some column"
  shows "snd (extract_columns_Categorical str_of self h expr data drop_dummy update_levels) =
           (case resolve_levels self h expr column of
              (other_flag, b, h1) \<Rightarrow>
                (if update_levels
                 then self\<lparr>categorical_levels := (categorical_levels self)(str_of expr \<mapsto> b)\<rparr>
                 else self, h1))"
  using assms
  by (simp add: extract_columns_Categorical_def Let_def
           split: prod.splits sum.splits list.splits)

text \<open>
  C9. The claim: encoding never changes the term, whose level list is the same before
  and after, and writes the registry alone, when \<open>update_levels\<close> is set. In the source
  the local \<open>levels\<close> is the term's own list, reconciled in place. What holds for a
  term with an explicit level list at address \<open>a\<close>, whose variable is in the data:
  the model changes only in its registry, and only when \<open>update_levels\<close> is set (the
  display string is then bound to the list used); no other sequence in the store changes;
  the term's list is left as it is when the registry has an entry for the term's name,
  and is otherwise replaced by its levels that occur in the data, followed by
  \<open>~other~\<close> when the data holds an unlisted level, whether \<open>update_levels\<close> is set
  or not; so it is unchanged when every listed level occurs in the data and every level
  of the data is listed.
\<close>

theorem encoding_side_effects:
  assumes "map_of data (name expr) = Some column"
    and "levels expr = Some a" and "a < length h"
  shows "fst (snd (extract_columns_Categorical str_of self h expr data drop_dummy update_levels)) =
           (if update_levels
            then self\<lparr>categorical_levels := (categorical_levels self)
                   (str_of expr \<mapsto> (case categorical_levels self (name expr) of
                                        None \<Rightarrow> a | Some b \<Rightarrow> b))\<rparr>
            else self) \<and>
         snd (snd (extract_columns_Categorical str_of self h expr data drop_dummy update_levels)) =
           (if categorical_levels self (name expr) = None
            then h[a := filter (\<lambda>l. l \<in> set column) (h ! a)
                        @ (if \<exists>v \<in> set column. v \<notin> set (h ! a) then [''~other~''] else [])]
            else h) \<and>
         ((\<forall>l \<in> set (h ! a). l \<in> set column) \<and> (\<forall>v \<in> set column. v \<in> set (h ! a)) \<longrightarrow>
          snd (snd (extract_columns_Categorical str_of self h expr data drop_dummy update_levels)) = h)"
proof (cases "categorical_levels self (name expr)")
  case None
  have "filter (\<lambda>l. l \<in> set column) (h ! a) = h ! a" if "\<forall>l \<in> set (h ! a). l \<in> set column"
    using that by (simp add: filter_id_conv)
  then show ?thesis
    using None by (auto simp: extract_columns_state [OF assms(1)] resolve_levels_explicit [OF None assms(2)])
next
  case (Some b)
  then show ?thesis
    by (simp add: extract_columns_state [OF assms(1)] resolve_levels_registry [OF Some])
qed

theorem encoding_side_effects_witness:
  "fst (snd (extract_columns_Categorical name example_model abx_heap (term_c (Some 0)) abc_data
               True False)) = example_model \<and>
   snd (snd (extract_columns_Categorical name example_model abx_heap (term_c (Some 0)) abc_data
               True False)) = [[''A'', ''B'', ''~other~'']]"
proof -
  have h2: "levels (term_c (Some 0)) = Some 0" by (simp add: term_c_def)
  have h3: "0 < length abx_heap" by (simp add: abx_heap_def)
  from encoding_side_effects [OF abc_column h2 h3, of name example_model True False]
  show ?thesis
    by (simp add: example_model_registry abx_heap_def term_c_def)
qed

text \<open>
  The claim as stated fails: the call below does not update the registry, and leaves the
  model as it was, but the term's level list, \<open>[A, B, X]\<close> before the call, is
  \<open>[A, B, ~other~]\<close> after it.
\<close>

theorem encoding_rewrites_term_levels:
  "abx_heap ! 0 = [''A'', ''B'', ''X''] \<and>
   extract_columns_Categorical name example_model abx_heap (term_c (Some 0)) abc_data True False =
     (Inr (Some \<lparr>nrows = 4, cols = [(''c::B'', [1, 0, 0, 0]), (''c::~other~'', [0, 0, 1, 0])]\<rparr>),
      example_model,
      [[''A'', ''B'', ''~other~'']]) \<and>
   snd (snd (extract_columns_Categorical name example_model abx_heap (term_c (Some 0)) abc_data
               True False)) ! 0 \<noteq> abx_heap ! 0"
proof -
  have "extract_columns_Categorical name example_model abx_heap (term_c (Some 0)) abc_data True False =
     (Inr (Some \<lparr>nrows = 4, cols = [(''c::B'', [1, 0, 0, 0]), (''c::~other~'', [0, 0, 1, 0])]\<rparr>),
      example_model,
      [[''A'', ''B'', ''~other~'']])"
    by (simp add: extract_columns_Categorical_def resolve_levels_def frame_of_dict_def
          set_label_def indicator_def select_def column_of_def labels_def drop_column_def
          set_column_def row_sums_def rows_def columns_def is_zero_def
          abx_heap_def abc_data_def term_c_def example_model_def LinearModel_def Let_def
          upt_rec numeral_eq_Suc)
  then show ?thesis by (simp add: abx_heap_def)
qed


end
